theory Spec2Isabelle
  imports Main "HOL-Library.Word" "HOL-Library.Multiset"
begin

section \<open>genlayout: the layout generator of go-winmd\<close>

text \<open>
  The program under study is \<^verbatim>\<open>cmd/genlayout/main.go\<close>. It takes a list of table
  descriptions and writes Go source text: an enumeration of table codes, a width function,
  a dispatch function for coded indices, a struct of table accessors with its initialiser,
  and one decoding method per table. Each writer of the program is embedded below as a
  function from the table list to the text it appends to the output buffer; the parts of
  that text that carry decisions (the sorted constants, the width terms, the dispatch
  cases, the accessor entries, the decode steps) are computed first as values and then
  rendered, so that properties can be stated about them.
\<close>

subsection \<open>The schema handed to the writers\<close>

text \<open>
  Modelled from the spec: the declarations of \<^verbatim>\<open>columnType\<close>, \<^verbatim>\<open>fieldInfo\<close> and
  \<^verbatim>\<open>tableInfo\<close> are in a file of the package that is not among the sources (only their uses
  in \<^verbatim>\<open>main.go\<close> are). The records carry exactly the members \<^verbatim>\<open>main.go\<close> reads, under the
  names it uses (\<^verbatim>\<open>fields\<close> is written \<open>fields'\<close>, the plain name being taken by the record
  package); \<^verbatim>\<open>code\<close> is a \<^verbatim>\<open>uint8\<close> (it is copied into a \<^verbatim>\<open>uint8\<close> member) and \<^verbatim>\<open>size\<close>
  an \<^verbatim>\<open>int\<close> (it is passed to \<^verbatim>\<open>strconv.Itoa\<close>). The column types are the seven constants
  \<^verbatim>\<open>main.go\<close> switches on, which correspond to the kinds of the specification
  (\<^verbatim>\<open>FixedInt\<close>, \<^verbatim>\<open>HeapIndex\<close> of the three heaps, \<^verbatim>\<open>TableRef\<close>, \<^verbatim>\<open>CodedRef\<close>, \<^verbatim>\<open>RowRange\<close>).
  A Go enumeration is an integer type, so a value that is none of the named constants can
  be stored in it: \<open>columnTypeOther\<close> stands for any such value.
\<close>

datatype columnType =
    columnTypeUint
  | columnTypeString
  | columnTypeGUID
  | columnTypeBlob
  | columnTypeIndex
  | columnTypeCodedIndex
  | columnTypeSlice
  | columnTypeOther nat

record fieldInfo =
  name :: string
  typeName :: string
  columnType :: columnType
  coded :: string
  tableName :: string
  size :: int

record tableInfo =
  name :: string
  tableName :: string
  code :: "8 word"
  exported :: bool
  fields' :: "fieldInfo list"

subsection \<open>Abnormal termination\<close>

text \<open>
  The program has two ways to stop without output: a run-time panic (an index out of
  range) and \<^verbatim>\<open>log.Fatalf\<close>, which prints and exits. Both end the process before \<^verbatim>\<open>main\<close>
  writes the output file.
\<close>

datatype fault =
    PanicIndexOutOfRange
  | FatalUnsupportedUintSize int

subsection \<open>Text helpers\<close>

definition nl :: string where
  "nl = [CHR 0x0A]"

definition tab :: string where
  "tab = [CHR 0x09]"

definition digitChar :: "nat \<Rightarrow> char" where
  "digitChar d = ''0123456789'' ! d"

fun natDec :: "nat \<Rightarrow> string" where
  "natDec n = (if n < 10 then [digitChar n] else natDec (n div 10) @ [digitChar (n mod 10)])"

declare natDec.simps [simp del]

text \<open>\<^verbatim>\<open>strconv.Itoa\<close>: the decimal form of an \<^verbatim>\<open>int\<close>, with a minus sign when negative.\<close>

definition Itoa :: "int \<Rightarrow> string" where
  "Itoa i = (if i < 0 then CHR ''-'' # natDec (nat (- i)) else natDec (nat i))"

text \<open>\<^verbatim>\<open>strings.Join\<close>: the elements, with the separator between neighbours.\<close>

fun Join :: "string list \<Rightarrow> string \<Rightarrow> string" where
  "Join [] sep = []"
| "Join [x] sep = x"
| "Join (x # y # ys) sep = x @ sep @ Join (y # ys) sep"

subsection \<open>\<^verbatim>\<open>writeTableValues\<close>: the table enumeration\<close>

text \<open>
  The writer copies name and code of every table into a fresh slice and sorts the slice
  with \<^verbatim>\<open>sort.Slice\<close> under \<^verbatim>\<open>sorted[i].value < sorted[j].value\<close>, an unsigned comparison of
  \<^verbatim>\<open>uint8\<close>. The result is a permutation in ascending order of the codes; for distinct codes
  there is only one. For equal codes the Go routine promises no particular order; the
  model keeps them in schema order.
\<close>

definition sortedTables :: "tableInfo list \<Rightarrow> (string \<times> 8 word) list" where
  "sortedTables tables = sort_key snd (map (\<lambda>t. (tableInfo.tableName t, code t)) tables)"

definition constLine :: "string \<times> 8 word \<Rightarrow> string" where
  "constLine e = tab @ fst e @ '' table = '' @ natDec (unat (snd e)) @ nl"

text \<open>
  The expression \<^verbatim>\<open>sorted[len(sorted)-1]\<close> panics when the slice is empty. The panic ends the
  process, so the lines written to the buffer before it are lost with it.
\<close>

definition writeTableValues :: "tableInfo list \<Rightarrow> fault + string" where
  "writeTableValues tables =
     (let sorted = sortedTables tables in
      if sorted = [] then Inl PanicIndexOutOfRange
      else Inr (''// Define table enum'' @ nl
        @ nl
        @ ''type table uint8'' @ nl
        @ nl
        @ ''const ('' @ nl
        @ concat (map constLine sorted)
        @ nl
        @ tab @ ''tableMax = '' @ fst (last sorted) @ '' + 1'' @ nl
        @ tab @ ''tableNone = tableMax'' @ nl
        @ '')'' @ nl))"

text \<open>
  What the emitted constant block means to a Go compiler. Every line \<^verbatim>\<open>name table = code\<close>
  binds a constant of the type \<^verbatim>\<open>table\<close>, a \<^verbatim>\<open>uint8\<close>; \<open>tableConsts\<close> is that binding.
  \<^verbatim>\<open>tableMax\<close> is the typed constant expression \<^verbatim>\<open>name + 1\<close> for the last name of the sorted
  slice. Go computes constant expressions exactly and rejects a typed constant whose value
  its type cannot hold, so there is a \<^verbatim>\<open>tableMax\<close> only when the sum is at most 255;
  \<open>None\<close> says that the emitted text defines no such constant. \<^verbatim>\<open>tableNone\<close> is declared
  equal to \<^verbatim>\<open>tableMax\<close>.
\<close>

definition tableConsts :: "tableInfo list \<Rightarrow> (string \<rightharpoonup> 8 word)" where
  "tableConsts tables = map_of (sortedTables tables)"

definition tableMax :: "tableInfo list \<Rightarrow> 8 word option" where
  "tableMax tables =
     (let sorted = sortedTables tables in
      if sorted = [] then None
      else (case tableConsts tables (fst (last sorted)) of
              None \<Rightarrow> None
            | Some v \<Rightarrow> if unat v + 1 \<le> 255 then Some (v + 1) else None))"

definition tableNone :: "tableInfo list \<Rightarrow> 8 word option" where
  "tableNone tables = tableMax tables"

subsection \<open>\<^verbatim>\<open>writeTableImpl\<close>\<close>

definition implLine :: "tableInfo \<Rightarrow> string" where
  "implLine t = ''func ('' @ tableInfo.name t @ '') table() table { return ''
     @ tableInfo.tableName t @ '' }'' @ nl @ nl"

definition writeTableImpl :: "tableInfo list \<Rightarrow> string" where
  "writeTableImpl tables =
     ''// Implement table interface'' @ nl
     @ nl
     @ concat (map implLine tables)"

subsection \<open>\<^verbatim>\<open>writeTableWidth\<close>: the width function\<close>

text \<open>
  The writer builds, for every table, a slice \<^verbatim>\<open>width\<close> of as many strings as the table has
  fields, all empty at first, and assigns \<^verbatim>\<open>width[i]\<close> in a switch over the column type of
  field \<^verbatim>\<open>i\<close>. The switch has six cases for the seven constants and no default. The strings
  it can assign are the values of \<open>widthTerm\<close>, with \<open>renderTerm\<close> giving their text;
  \<open>NoTerm\<close> is the empty string a slot keeps when no case assigns it.
\<close>

datatype widthTerm =
    CodedSize string
  | SimpleSize string
  | StringSize
  | GuidSize
  | BlobSize
  | Literal int
  | NoTerm

fun renderTerm :: "widthTerm \<Rightarrow> string" where
  "renderTerm (CodedSize c) = ''la.codedSizes[coded'' @ c @ '']''"
| "renderTerm (SimpleSize tn) = ''la.simpleSizes['' @ tn @ '']''"
| "renderTerm StringSize = ''la.stringSize''"
| "renderTerm GuidSize = ''la.guidSize''"
| "renderTerm BlobSize = ''la.blobSize''"
| "renderTerm (Literal n) = Itoa n"
| "renderTerm NoTerm = []"

fun fillWidth :: "fieldInfo list \<Rightarrow> nat \<Rightarrow> widthTerm list \<Rightarrow> widthTerm list" where
  "fillWidth [] i width = width"
| "fillWidth (c # cs) i width =
     fillWidth cs (Suc i)
       (case columnType c of
          columnTypeCodedIndex \<Rightarrow> width[i := CodedSize (coded c)]
        | columnTypeIndex \<Rightarrow> width[i := SimpleSize (fieldInfo.tableName c)]
        | columnTypeSlice \<Rightarrow> width[i := SimpleSize (fieldInfo.tableName c)]
        | columnTypeString \<Rightarrow> width[i := StringSize]
        | columnTypeGUID \<Rightarrow> width[i := GuidSize]
        | columnTypeBlob \<Rightarrow> width[i := BlobSize]
        | columnTypeUint \<Rightarrow> width[i := Literal (fieldInfo.size c)]
        | columnTypeOther k \<Rightarrow> width)"

definition tableWidth :: "tableInfo \<Rightarrow> widthTerm list" where
  "tableWidth t = fillWidth (fields' t) 0 (replicate (length (fields' t)) NoTerm)"

text \<open>The result type the writer gives the emitted function in its signature.\<close>

definition widthResultType :: string where
  "widthResultType = ''uint8''"

definition widthCase :: "tableInfo \<Rightarrow> string" where
  "widthCase t =
     tab @ ''case '' @ tableInfo.tableName t @ '':'' @ nl
     @ tab @ tab @ ''return '' @ Join (map renderTerm (tableWidth t)) '' + '' @ nl"

definition writeTableWidth :: "tableInfo list \<Rightarrow> string" where
  "writeTableWidth tables =
     ''// Define table width'' @ nl
     @ nl
     @ ''func (t table) width(la *layout) ('' @ widthResultType @ '') {'' @ nl
     @ tab @ ''switch t {'' @ nl
     @ concat (map widthCase tables)
     @ tab @ ''default:'' @ nl
     @ tab @ tab @ ''panic(fmt.Sprintf('' @ [CHR 0x22] @ ''table %v not supported''
         @ [CHR 0x22] @ '', t))'' @ nl
     @ tab @ ''}'' @ nl
     @ ''}'' @ nl
     @ nl"

subsection \<open>What the emitted width expression computes\<close>

text \<open>
  Modelled from the spec: the struct \<^verbatim>\<open>layout\<close> behind the parameter \<^verbatim>\<open>la\<close> (the
  specification's \<^verbatim>\<open>LayoutContext\<close>) is declared in the library, not in the sources. Its
  members are the five the emitted text names. The emitted function returns \<^verbatim>\<open>uint8\<close> with
  no conversion, and Go converts nothing implicitly, so every member read in a sum is a
  \<^verbatim>\<open>uint8\<close>. The two arrays are indexed by a constant that the text gives by name.
\<close>

record layout =
  stringSize :: "8 word"
  guidSize :: "8 word"
  blobSize :: "8 word"
  simpleSizes :: "string \<Rightarrow> 8 word"
  codedSizes :: "string \<Rightarrow> 8 word"

text \<open>
  The emitted expression is \<^verbatim>\<open>w0 + w1 + ... + wn\<close>, which Go reads from the left. An operand is
  an untyped integer constant (a decimal literal, or a sum of such, computed exactly) or a
  \<^verbatim>\<open>uint8\<close> value, a member of the layout. Adding two \<^verbatim>\<open>uint8\<close> values wraps around. Where a
  constant meets a \<^verbatim>\<open>uint8\<close> value it is converted to \<^verbatim>\<open>uint8\<close>, and the compiler rejects the
  program when the constant is outside 0..255.

  A slot that is the empty string leaves its \<^verbatim>\<open>+\<close> behind. Before another operand that is a
  sign, which changes nothing: Go reads \<^verbatim>\<open>a +  + b\<close> as \<^verbatim>\<open>a + (+b)\<close> and \<^verbatim>\<open> + b\<close> as \<^verbatim>\<open>+b\<close>. So the
  operands of the sum are the slots that are not empty. With an empty last slot, or no slot
  at all, the text is no expression.

  The value of the sum is returned as the result type of the emitted signature. The model
  covers the result type \<^verbatim>\<open>uint8\<close>, the type of the layout's members: a constant is converted
  to it, again only from 0..255, and a \<^verbatim>\<open>uint8\<close> value is returned as it is. \<open>None\<close> stands for
  text that the Go compiler does not accept as an expression of the result type.
\<close>

datatype goValue = Untyped int | Typed "8 word"

definition toUint8 :: "int \<Rightarrow> 8 word option" where
  "toUint8 n = (if 0 \<le> n \<and> n \<le> 255 then Some (word_of_int n) else None)"

fun termValue :: "layout \<Rightarrow> widthTerm \<Rightarrow> goValue option" where
  "termValue la (CodedSize c) = Some (Typed (codedSizes la c))"
| "termValue la (SimpleSize tn) = Some (Typed (simpleSizes la tn))"
| "termValue la StringSize = Some (Typed (stringSize la))"
| "termValue la GuidSize = Some (Typed (guidSize la))"
| "termValue la BlobSize = Some (Typed (blobSize la))"
| "termValue la (Literal n) = Some (Untyped n)"
| "termValue la NoTerm = None"

fun goAdd :: "goValue \<Rightarrow> goValue \<Rightarrow> goValue option" where
  "goAdd (Untyped a) (Untyped b) = Some (Untyped (a + b))"
| "goAdd (Untyped a) (Typed y) = map_option (\<lambda>x. Typed (x + y)) (toUint8 a)"
| "goAdd (Typed x) (Untyped b) = map_option (\<lambda>y. Typed (x + y)) (toUint8 b)"
| "goAdd (Typed x) (Typed y) = Some (Typed (x + y))"

fun evalSum :: "layout \<Rightarrow> goValue \<Rightarrow> widthTerm list \<Rightarrow> goValue option" where
  "evalSum la acc [] = Some acc"
| "evalSum la acc (w # ws) =
     (case termValue la w of
        None \<Rightarrow> None
      | Some v \<Rightarrow> (case goAdd acc v of None \<Rightarrow> None | Some acc' \<Rightarrow> evalSum la acc' ws))"

fun returnUint8 :: "goValue \<Rightarrow> 8 word option" where
  "returnUint8 (Untyped n) = toUint8 n"
| "returnUint8 (Typed x) = Some x"

definition returnAs :: "string \<Rightarrow> goValue \<Rightarrow> 8 word option" where
  "returnAs ty v = (if ty = ''uint8'' then returnUint8 v else None)"

definition operands :: "widthTerm list \<Rightarrow> widthTerm list" where
  "operands ws = filter (\<lambda>w. w \<noteq> NoTerm) ws"

definition evalTerms :: "string \<Rightarrow> layout \<Rightarrow> widthTerm list \<Rightarrow> 8 word option" where
  "evalTerms ty la ws =
     (if ws = [] \<or> last ws = NoTerm then None
      else (case operands ws of
              [] \<Rightarrow> None
            | w # ws' \<Rightarrow>
                (case termValue la w of
                   None \<Rightarrow> None
                 | Some v \<Rightarrow>
                     (case evalSum la v ws' of None \<Rightarrow> None | Some r \<Rightarrow> returnAs ty r))))"

definition evalWidth :: "layout \<Rightarrow> tableInfo \<Rightarrow> 8 word option" where
  "evalWidth la t = evalTerms widthResultType la (tableWidth t)"

text \<open>The \<^verbatim>\<open>uint8\<close> a value is, once converted.\<close>

fun asWord :: "goValue \<Rightarrow> 8 word" where
  "asWord (Untyped n) = word_of_int n"
| "asWord (Typed x) = x"

text \<open>The number a term stands for, and the sum of a table's terms, without any wrap-around.\<close>

fun termInt :: "layout \<Rightarrow> widthTerm \<Rightarrow> int" where
  "termInt la (CodedSize c) = uint (codedSizes la c)"
| "termInt la (SimpleSize tn) = uint (simpleSizes la tn)"
| "termInt la StringSize = uint (stringSize la)"
| "termInt la GuidSize = uint (guidSize la)"
| "termInt la BlobSize = uint (blobSize la)"
| "termInt la (Literal n) = n"
| "termInt la NoTerm = 0"

definition widthSum :: "layout \<Rightarrow> tableInfo \<Rightarrow> int" where
  "widthSum la t = sum_list (map (termInt la) (tableWidth t))"

text \<open>A term that can stand as an operand of type \<^verbatim>\<open>uint8\<close> wherever it occurs in a sum.\<close>

fun okTerm :: "widthTerm \<Rightarrow> bool" where
  "okTerm NoTerm = False"
| "okTerm (Literal n) = (0 \<le> n \<and> n \<le> 255)"
| "okTerm w = True"

text \<open>The constant a sum starts with: the total of its leading literals.\<close>

fun leadingLiterals :: "widthTerm list \<Rightarrow> int" where
  "leadingLiterals (Literal n # ws) = n + leadingLiterals ws"
| "leadingLiterals ws = 0"

subsection \<open>\<^verbatim>\<open>writeCodedTable\<close>: the dispatch of coded indices\<close>

text \<open>
  One case per exported table, in schema order; the loop skips the others with
  \<^verbatim>\<open>continue\<close>. A case is the label \<^verbatim>\<open>t.tableName\<close> and the member \<^verbatim>\<open>t.name\<close> whose address it
  returns.
\<close>

fun codedCases :: "tableInfo list \<Rightarrow> (string \<times> string) list" where
  "codedCases [] = []"
| "codedCases (t # ts) =
     (if \<not> exported t then codedCases ts
      else (tableInfo.tableName t, tableInfo.name t) # codedCases ts)"

definition codedCaseText :: "string \<times> string \<Rightarrow> string" where
  "codedCaseText c =
     tab @ ''case '' @ fst c @ '':'' @ nl
     @ tab @ tab @ ''return (*Table[Record])(&t.'' @ snd c @ '')'' @ nl"

definition writeCodedTable :: "tableInfo list \<Rightarrow> string" where
  "writeCodedTable tables =
     ''// Define CodedTable function'' @ nl
     @ nl
     @ ''// CodedTable returns the table associated to c.'' @ nl
     @ ''func (t *Tables) CodedTable(c CodedIndex) *Table[Record] {'' @ nl
     @ tab @ ''switch c.table {'' @ nl
     @ concat (map codedCaseText (codedCases tables))
     @ tab @ ''default:'' @ nl
     @ tab @ tab @ ''return nil'' @ nl
     @ tab @ ''}'' @ nl
     @ ''}'' @ nl"

text \<open>
  What the emitted switch does with \<^verbatim>\<open>c.table\<close>, a value of the type \<^verbatim>\<open>table\<close>: the first case
  whose label is a constant of that value returns its member (\<open>Some\<close> of the member's
  name); with no such case the default returns \<^verbatim>\<open>nil\<close> (\<open>None\<close>). The labels denote the
  constants of the emitted enumeration.
\<close>

fun switchTable :: "(string \<rightharpoonup> 8 word) \<Rightarrow> (string \<times> string) list \<Rightarrow> 8 word \<Rightarrow> string option" where
  "switchTable env [] tag = None"
| "switchTable env (c # cs) tag =
     (if env (fst c) = Some tag then Some (snd c) else switchTable env cs tag)"

definition CodedTable :: "tableInfo list \<Rightarrow> 8 word \<Rightarrow> string option" where
  "CodedTable tables tag = switchTable (tableConsts tables) (codedCases tables) tag"

subsection \<open>\<^verbatim>\<open>writeTablesStruct\<close>: the accessors and their initialiser\<close>

text \<open>
  Two loops over the tables in schema order, both skipping tables that are not exported:
  the first writes one struct member per table, the second one call of \<^verbatim>\<open>newTable\<close> per
  table, passing the table's constant.
\<close>

fun structMembers :: "tableInfo list \<Rightarrow> string list" where
  "structMembers [] = []"
| "structMembers (t # ts) =
     (if \<not> exported t then structMembers ts else tableInfo.name t # structMembers ts)"

fun initCalls :: "tableInfo list \<Rightarrow> (string \<times> string) list" where
  "initCalls [] = []"
| "initCalls (t # ts) =
     (if \<not> exported t then initCalls ts
      else (tableInfo.name t, tableInfo.tableName t) # initCalls ts)"

definition memberText :: "string \<Rightarrow> string" where
  "memberText n = tab @ n @ '' Table['' @ n @ '']'' @ nl"

definition initCallText :: "string \<times> string \<Rightarrow> string" where
  "initCallText c =
     tab @ ''t.'' @ fst c @ '' = newTable['' @ fst c @ ''](t, '' @ snd c @ '')'' @ nl"

definition writeTablesStruct :: "tableInfo list \<Rightarrow> string" where
  "writeTablesStruct tables =
     ''// Define tables struct'' @ nl
     @ nl
     @ ''type tables struct {'' @ nl
     @ concat (map memberText (structMembers tables))
     @ ''}'' @ nl
     @ nl
     @ ''func initTables(t *Tables) {'' @ nl
     @ concat (map initCallText (initCalls tables))
     @ ''}'' @ nl"

text \<open>The catalog id each call of the initialiser passes: the value of its constant.\<close>

definition initIds :: "tableInfo list \<Rightarrow> 8 word option list" where
  "initIds tables = map (\<lambda>c. tableConsts tables (snd c)) (initCalls tables)"

subsection \<open>\<^verbatim>\<open>writeTableEncoding\<close>: the decoding methods\<close>

text \<open>
  For every table the writer emits a method \<^verbatim>\<open>decode\<close> with one assignment per field, chosen
  by a switch over the column type (seven cases, no default), and a final
  \<^verbatim>\<open>return r.err\<close>. A fixed integer is read by \<^verbatim>\<open>uint8\<close>, \<^verbatim>\<open>uint16\<close> or \<^verbatim>\<open>uint32\<close> according to its
  size; any other size ends the program through \<^verbatim>\<open>log.Fatalf\<close>. When the type name of such a
  field starts with \<^verbatim>\<open>flags.\<close> the value read is converted to that type.
\<close>

definition HasPrefix :: "string \<Rightarrow> string \<Rightarrow> bool" where
  "HasPrefix s p = (take (length p) s = p)"

datatype read =
    ReadIndex string
  | ReadBlob
  | ReadGUID
  | ReadString
  | ReadUint string
  | ReadCoded string
  | ReadSlice string string

datatype step = Step (target: string) (conv: "string option") (rd: read)

definition uintFn :: "int \<Rightarrow> fault + string" where
  "uintFn n =
     (if n = 1 then Inr ''uint8''
      else if n = 2 then Inr ''uint16''
      else if n = 4 then Inr ''uint32''
      else Inl (FatalUnsupportedUintSize n))"

text \<open>The assignment written for one field: none when no case of the switch applies.\<close>

definition fieldStep :: "tableInfo \<Rightarrow> fieldInfo \<Rightarrow> fault + step list" where
  "fieldStep t f =
     (case columnType f of
        columnTypeIndex \<Rightarrow> Inr [Step (fieldInfo.name f) None (ReadIndex (fieldInfo.tableName f))]
      | columnTypeBlob \<Rightarrow> Inr [Step (fieldInfo.name f) None ReadBlob]
      | columnTypeGUID \<Rightarrow> Inr [Step (fieldInfo.name f) None ReadGUID]
      | columnTypeString \<Rightarrow> Inr [Step (fieldInfo.name f) None ReadString]
      | columnTypeUint \<Rightarrow>
          (case uintFn (fieldInfo.size f) of
             Inl e \<Rightarrow> Inl e
           | Inr fn \<Rightarrow>
               if HasPrefix (typeName f) ''flags.''
               then Inr [Step (fieldInfo.name f) (Some (typeName f)) (ReadUint fn)]
               else Inr [Step (fieldInfo.name f) None (ReadUint fn)])
      | columnTypeCodedIndex \<Rightarrow> Inr [Step (fieldInfo.name f) None (ReadCoded (coded f))]
      | columnTypeSlice \<Rightarrow>
          Inr [Step (fieldInfo.name f) None
                 (ReadSlice (tableInfo.tableName t) (fieldInfo.tableName f))]
      | columnTypeOther k \<Rightarrow> Inr [])"

fun tableSteps :: "tableInfo \<Rightarrow> fieldInfo list \<Rightarrow> fault + step list" where
  "tableSteps t [] = Inr []"
| "tableSteps t (f # fs) =
     (case fieldStep t f of
        Inl e \<Rightarrow> Inl e
      | Inr s \<Rightarrow> (case tableSteps t fs of Inl e \<Rightarrow> Inl e | Inr ss \<Rightarrow> Inr (s @ ss)))"

definition tableDecode :: "tableInfo \<Rightarrow> fault + step list" where
  "tableDecode t = tableSteps t (fields' t)"

fun readText :: "read \<Rightarrow> string" where
  "readText (ReadIndex tn) = ''r.index('' @ tn @ '')''"
| "readText ReadBlob = ''r.blob()''"
| "readText ReadGUID = ''r.guid()''"
| "readText ReadString = ''r.string()''"
| "readText (ReadUint fn) = ''r.'' @ fn @ ''()''"
| "readText (ReadCoded c) = ''r.coded(coded'' @ c @ '')''"
| "readText (ReadSlice parent child) = ''r.slice('' @ parent @ '', '' @ child @ '')''"

definition stepText :: "step \<Rightarrow> string" where
  "stepText s =
     (case conv s of
        None \<Rightarrow> tab @ ''rec.'' @ target s @ '' = '' @ readText (rd s) @ nl
      | Some ty \<Rightarrow> tab @ ''rec.'' @ target s @ '' = '' @ ty @ ''('' @ readText (rd s) @ '')'' @ nl)"

definition decodeText :: "tableInfo \<Rightarrow> step list \<Rightarrow> string" where
  "decodeText t ss =
     ''func (rec *'' @ tableInfo.name t @ '') decode(r recordReader) error {'' @ nl
     @ concat (map stepText ss)
     @ tab @ ''return r.err'' @ nl
     @ ''}'' @ nl
     @ nl"

fun encodeTables :: "tableInfo list \<Rightarrow> fault + string" where
  "encodeTables [] = Inr []"
| "encodeTables (t # ts) =
     (case tableDecode t of
        Inl e \<Rightarrow> Inl e
      | Inr ss \<Rightarrow>
          (case encodeTables ts of Inl e \<Rightarrow> Inl e | Inr txt \<Rightarrow> Inr (decodeText t ss @ txt)))"

definition writeTableEncoding :: "tableInfo list \<Rightarrow> fault + string" where
  "writeTableEncoding tables =
     (case encodeTables tables of
        Inl e \<Rightarrow> Inl e
      | Inr txt \<Rightarrow> Inr (''// Define table decoding functions'' @ nl @ nl @ txt))"

subsection \<open>What an emitted decoding method does\<close>

text \<open>
  Modelled from the spec: the type \<^verbatim>\<open>recordReader\<close> and its methods are part of the library,
  not of the sources. The specification describes it as a sequential cursor over the bytes
  of one record: a read consumes as many bytes as its width, the width of a read through a
  heap, a table or a coded index being the one the layout resolves, and that of a fixed
  integer 1, 2 or 4; a row range is read as one index into its target table. A read fails
  when it runs past the bytes at hand, and a coded read also when the bytes it read carry a
  tag that is invalid in its scheme. A failed read leaves the failure in the cursor's error
  state, which the emitted method returns at its end. The schemes come from outside and
  are looked up by name; the model takes them as the parameter \<open>sch\<close>, which says for a
  scheme and the bytes of a coded index whether the tag is valid. The model keeps the bytes
  not yet consumed and the error state, hands out the bytes a read consumed as its value
  (none when it failed), and never clears an error once set.
\<close>

datatype cursorFault = CursorFault

record recordReader =
  bytes :: "8 word list"
  err :: "cursorFault option"

type_synonym schemes = "string \<Rightarrow> 8 word list \<Rightarrow> bool"

fun readWidth :: "layout \<Rightarrow> read \<Rightarrow> nat" where
  "readWidth la (ReadIndex tn) = unat (simpleSizes la tn)"
| "readWidth la ReadBlob = unat (blobSize la)"
| "readWidth la ReadGUID = unat (guidSize la)"
| "readWidth la ReadString = unat (stringSize la)"
| "readWidth la (ReadUint fn) =
     (if fn = ''uint8'' then 1 else if fn = ''uint16'' then 2
      else if fn = ''uint32'' then 4 else 0)"
| "readWidth la (ReadCoded c) = unat (codedSizes la c)"
| "readWidth la (ReadSlice parent child) = unat (simpleSizes la child)"

text \<open>Whether the bytes a read took are well-formed: a matter of coded reads only.\<close>

fun wellFormed :: "schemes \<Rightarrow> read \<Rightarrow> 8 word list \<Rightarrow> bool" where
  "wellFormed sch (ReadCoded c) bs = sch c bs"
| "wellFormed sch x bs = True"

definition cursorRead ::
  "schemes \<Rightarrow> layout \<Rightarrow> read \<Rightarrow> recordReader \<Rightarrow> 8 word list \<times> recordReader" where
  "cursorRead sch la x r =
     (let n = readWidth la x in
      if err r = None \<and> n \<le> length (bytes r) \<and> wellFormed sch x (take n (bytes r))
      then (take n (bytes r), r\<lparr>bytes := drop n (bytes r)\<rparr>)
      else ([], r\<lparr>err := Some CursorFault\<rparr>))"

text \<open>
  The bytes of a record as a sequence of steps would read them: every coded step finds a
  valid tag in the bytes at its place.
\<close>

fun tagsValid :: "schemes \<Rightarrow> layout \<Rightarrow> step list \<Rightarrow> 8 word list \<Rightarrow> bool" where
  "tagsValid sch la [] bs = True"
| "tagsValid sch la (s # ss) bs =
     (wellFormed sch (rd s) (take (readWidth la (rd s)) bs)
      \<and> tagsValid sch la ss (drop (readWidth la (rd s)) bs))"

text \<open>
  The body of an emitted method: the assignments in order, each storing the value of its
  read in the member of \<^verbatim>\<open>rec\<close> it names, whatever the reads before it did; a conversion to
  a flags type leaves the bytes as they are. The method works on the record its caller
  passed by pointer. Its result is \<^verbatim>\<open>r.err\<close> after the last assignment; the record is given
  beside it, as the caller finds it afterwards. The reader's behaviour is the parameter
  \<open>p\<close>.
\<close>

fun runSteps ::
  "(read \<Rightarrow> 'r \<Rightarrow> 'v \<times> 'r) \<Rightarrow> step list \<Rightarrow> (string \<rightharpoonup> 'v) \<times> 'r \<Rightarrow> (string \<rightharpoonup> 'v) \<times> 'r" where
  "runSteps p [] s = s"
| "runSteps p (x # xs) s =
     (case p (rd x) (snd s) of (v, r') \<Rightarrow> runSteps p xs ((fst s)(target x \<mapsto> v), r'))"

definition decode ::
  "(read \<Rightarrow> recordReader \<Rightarrow> 'v \<times> recordReader) \<Rightarrow> step list \<Rightarrow> (string \<rightharpoonup> 'v) \<Rightarrow> recordReader
     \<Rightarrow> cursorFault option \<times> (string \<rightharpoonup> 'v)" where
  "decode p ss rec r = (case runSteps p ss (rec, r) of (rec', r') \<Rightarrow> (err r', rec'))"

definition planWidth :: "layout \<Rightarrow> step list \<Rightarrow> nat" where
  "planWidth la ss = sum_list (map (\<lambda>s. readWidth la (rd s)) ss)"

subsection \<open>\<^verbatim>\<open>main\<close>: the whole buffer\<close>

definition writePrelude :: string where
  "writePrelude =
     nl
     @ ''// Copyright (c) Microsoft Corporation'' @ nl
     @ ''// Licensed under the MIT License.'' @ nl
     @ nl
     @ ''// Code generated by '' @ [CHR 0x22] @ ''genlayout'' @ [CHR 0x22] @ ''; DO NOT EDIT.'' @ nl
     @ nl
     @ ''package winmd'' @ nl
     @ nl
     @ ''import ('' @ nl
     @ tab @ [CHR 0x22] @ ''fmt'' @ [CHR 0x22] @ nl
     @ tab @ [CHR 0x22] @ ''github.com/microsoft/go-winmd/flags'' @ [CHR 0x22] @ nl
     @ '')'' @ nl
     @ nl"

text \<open>
  \<^verbatim>\<open>main\<close> runs the writers on one buffer in a fixed order and hands the buffer to the
  formatter and the file system only after the last of them. \<open>generate\<close> is the content of
  the buffer at that point, or the fault that ended the program before: of the writers only
  \<^verbatim>\<open>writeTableValues\<close> and \<^verbatim>\<open>writeTableEncoding\<close> can end it, and the former runs first. Reading
  the schema from the package, formatting and writing the file are not part of the model.
\<close>

definition generate :: "tableInfo list \<Rightarrow> fault + string" where
  "generate tables =
     (case writeTableValues tables of
        Inl e \<Rightarrow> Inl e
      | Inr vals \<Rightarrow>
          (case writeTableEncoding tables of
             Inl e \<Rightarrow> Inl e
           | Inr enc \<Rightarrow>
               Inr (writePrelude
                    @ writeCodedTable tables
                    @ vals
                    @ writeTableWidth tables
                    @ writeTableImpl tables
                    @ writeTablesStruct tables
                    @ enc)))"

subsection \<open>Schemas within the specification's data model\<close>

text \<open>
  The specification has five kinds of field: a fixed integer of 1, 2 or 4 bytes, an index
  into one of three heaps, a reference to a table, a coded reference and a row range. In
  terms of column types: one of the seven constants, with the size of a fixed integer
  among 1, 2 and 4.
\<close>

definition knownKind :: "fieldInfo \<Rightarrow> bool" where
  "knownKind f = (case columnType f of columnTypeOther k \<Rightarrow> False | _ \<Rightarrow> True)"

definition uintSizeOk :: "fieldInfo \<Rightarrow> bool" where
  "uintSizeOk f =
     (columnType f = columnTypeUint \<longrightarrow>
        fieldInfo.size f = 1 \<or> fieldInfo.size f = 2 \<or> fieldInfo.size f = 4)"

definition supportedField :: "fieldInfo \<Rightarrow> bool" where
  "supportedField f = (knownKind f \<and> uintSizeOk f)"

definition supportedTable :: "tableInfo \<Rightarrow> bool" where
  "supportedTable t = list_all supportedField (fields' t)"

text \<open>
  The width term of a field in the words of the specification: a fixed integer
  contributes its size as a constant, a heap index the layout's width for that heap, a
  table reference the layout's index width for the target table, a coded reference the
  layout's width for the scheme, and a row range the same as a table reference to its
  target. A field of no such kind has no term.
\<close>

definition specWidthTerm :: "fieldInfo \<Rightarrow> widthTerm option" where
  "specWidthTerm c =
     (case columnType c of
        columnTypeUint \<Rightarrow> Some (Literal (fieldInfo.size c))
      | columnTypeString \<Rightarrow> Some StringSize
      | columnTypeGUID \<Rightarrow> Some GuidSize
      | columnTypeBlob \<Rightarrow> Some BlobSize
      | columnTypeIndex \<Rightarrow> Some (SimpleSize (fieldInfo.tableName c))
      | columnTypeCodedIndex \<Rightarrow> Some (CodedSize (coded c))
      | columnTypeSlice \<Rightarrow> Some (SimpleSize (fieldInfo.tableName c))
      | columnTypeOther k \<Rightarrow> None)"

subsection \<open>Example schemas\<close>

text \<open>
  A few tables in the style of the metadata tables the program is run on, and some made
  to reach the corners of the writers. They serve as concrete inputs below.
\<close>

definition uintField :: "string \<Rightarrow> string \<Rightarrow> int \<Rightarrow> fieldInfo" where
  "uintField n ty s =
     \<lparr>fieldInfo.name = n, typeName = ty, columnType = columnTypeUint, coded = [],
      tableName = [], size = s\<rparr>"

definition heapField :: "string \<Rightarrow> columnType \<Rightarrow> fieldInfo" where
  "heapField n ct =
     \<lparr>fieldInfo.name = n, typeName = [], columnType = ct, coded = [],
      tableName = [], size = 0\<rparr>"

definition refField :: "string \<Rightarrow> columnType \<Rightarrow> string \<Rightarrow> fieldInfo" where
  "refField n ct tn =
     \<lparr>fieldInfo.name = n, typeName = [], columnType = ct, coded = [],
      tableName = tn, size = 0\<rparr>"

definition codedField :: "string \<Rightarrow> string \<Rightarrow> fieldInfo" where
  "codedField n c =
     \<lparr>fieldInfo.name = n, typeName = ''CodedIndex'', columnType = columnTypeCodedIndex,
      coded = c, tableName = [], size = 0\<rparr>"

definition exModule :: tableInfo where
  "exModule =
     \<lparr>tableInfo.name = ''Module'', tableName = ''tableModule'', code = 0, exported = True,
      fields' = [uintField ''Generation'' ''uint16'' 2,
                 heapField ''Name'' columnTypeString,
                 heapField ''Mvid'' columnTypeGUID]\<rparr>"

definition exTypeRef :: tableInfo where
  "exTypeRef =
     \<lparr>tableInfo.name = ''TypeRef'', tableName = ''tableTypeRef'', code = 1, exported = True,
      fields' = [codedField ''ResolutionScope'' ''ResolutionScope'',
                 heapField ''TypeName'' columnTypeString,
                 heapField ''TypeNamespace'' columnTypeString]\<rparr>"

definition exTypeDef :: tableInfo where
  "exTypeDef =
     \<lparr>tableInfo.name = ''TypeDef'', tableName = ''tableTypeDef'', code = 2, exported = True,
      fields' = [uintField ''Flags'' ''flags.TypeAttributes'' 4,
                 heapField ''TypeName'' columnTypeString,
                 codedField ''Extends'' ''TypeDefOrRef'',
                 refField ''FieldList'' columnTypeSlice ''tableField'']\<rparr>"

definition exFieldPtr :: tableInfo where
  "exFieldPtr =
     \<lparr>tableInfo.name = ''fieldPtr'', tableName = ''tableFieldPtr'', code = 3, exported = False,
      fields' = [refField ''Field'' columnTypeIndex ''tableField'']\<rparr>"

text \<open>A table with the largest code a \<^verbatim>\<open>uint8\<close> holds.\<close>

definition exLast :: tableInfo where
  "exLast =
     \<lparr>tableInfo.name = ''Last'', tableName = ''tableLast'', code = 255, exported = True,
      fields' = [uintField ''Value'' ''uint8'' 1]\<rparr>"

text \<open>Two tables with the same code.\<close>

definition exDupA :: tableInfo where
  "exDupA =
     \<lparr>tableInfo.name = ''A'', tableName = ''tableA'', code = 5, exported = True,
      fields' = [uintField ''Value'' ''uint16'' 2]\<rparr>"

definition exDupB :: tableInfo where
  "exDupB =
     \<lparr>tableInfo.name = ''B'', tableName = ''tableB'', code = 5, exported = True,
      fields' = [heapField ''Name'' columnTypeString]\<rparr>"

text \<open>A table with a field whose column type is none of the seven constants.\<close>

definition exOdd :: tableInfo where
  "exOdd =
     \<lparr>tableInfo.name = ''Odd'', tableName = ''tableOdd'', code = 7, exported = True,
      fields' = [heapField ''Mystery'' (columnTypeOther 9)]\<rparr>"

text \<open>A table of two 16-bit integers, and a table of 64 string columns.\<close>

definition exPair :: tableInfo where
  "exPair =
     \<lparr>tableInfo.name = ''Pair'', tableName = ''tablePair'', code = 8, exported = True,
      fields' = [uintField ''First'' ''uint16'' 2, uintField ''Second'' ''uint16'' 2]\<rparr>"

definition exWide :: tableInfo where
  "exWide =
     \<lparr>tableInfo.name = ''Wide'', tableName = ''tableWide'', code = 9, exported = True,
      fields' = map (\<lambda>i. heapField (''S'' @ natDec i) columnTypeString) [0..<64]\<rparr>"

text \<open>The decode steps of the table of 64 string columns, and a record cut short.\<close>

definition exWidePlan :: "step list" where
  "exWidePlan = map (\<lambda>i. Step (''S'' @ natDec i) None ReadString) [0..<64]"

definition exShortRecord :: recordReader where
  "exShortRecord = \<lparr>bytes = [1, 2, 3], err = None\<rparr>"

text \<open>A record of twelve bytes.\<close>

definition exFullRecord :: recordReader where
  "exFullRecord = \<lparr>bytes = [1, 2, 3, 4, 5, 6, 7, 8, 9, 10, 11, 12], err = None\<rparr>"

text \<open>A table of 64 four-byte integers.\<close>

definition exLit :: tableInfo where
  "exLit =
     \<lparr>tableInfo.name = ''Lit'', tableName = ''tableLit'', code = 10, exported = True,
      fields' = map (\<lambda>i. uintField (''F'' @ natDec i) ''uint32'' 4) [0..<64]\<rparr>"

text \<open>
  Schemes of three tables under a tag of two bits: the tag, the low two bits of the first
  byte, must not be 3. A record of one coded index of two bytes with the tag 3.
\<close>

definition exSchemes :: schemes where
  "exSchemes c bs = (bs \<noteq> [] \<and> unat (hd bs) mod 4 < 3)"

definition exBadTagRecord :: recordReader where
  "exBadTagRecord = \<lparr>bytes = [7, 0], err = None\<rparr>"

text \<open>A layout with 4-byte heap indices and 2-byte table and coded indices.\<close>

definition exLayout :: layout where
  "exLayout =
     \<lparr>stringSize = 4, guidSize = 4, blobSize = 4,
      simpleSizes = (\<lambda>tn. 2), codedSizes = (\<lambda>c. 2)\<rparr>"

subsection \<open>Properties of the enumeration\<close>

lemma sortedTables_Nil_iff: "sortedTables tables = [] \<longleftrightarrow> tables = []"
proof -
  have "length (sortedTables tables) = length tables"
    by (simp add: sortedTables_def)
  then show ?thesis
    by (metis length_0_conv)
qed

text \<open>
  Claim C9. The enumeration writer needs a non-empty schema. With no table at all it
  indexes the last element of an empty slice and panics, so it returns neither text nor a
  fault of its own making, and the run ends there; with at least one table it does not
  fail.
\<close>

theorem writeTableValues_empty_panics:
  "writeTableValues [] = Inl PanicIndexOutOfRange
   \<and> generate [] = Inl PanicIndexOutOfRange
   \<and> (isl (writeTableValues tables) \<longleftrightarrow> tables = [])"
proof (intro conjI)
  show e: "writeTableValues [] = Inl PanicIndexOutOfRange"
    by (simp add: writeTableValues_def sortedTables_def)
  then show "generate [] = Inl PanicIndexOutOfRange"
    by (simp add: generate_def)
  show "isl (writeTableValues tables) \<longleftrightarrow> tables = []"
    by (simp add: writeTableValues_def Let_def sortedTables_Nil_iff)
qed

lemma mset_sortedTables:
  "mset (sortedTables tables) = mset (map (\<lambda>t. (tableInfo.tableName t, code t)) tables)"
  by (simp add: sortedTables_def)

lemma set_sortedTables:
  "set (sortedTables tables) = (\<lambda>t. (tableInfo.tableName t, code t)) ` set tables"
  by (simp add: sortedTables_def)

lemma sorted_sortedTables: "sorted (map snd (sortedTables tables))"
  by (simp add: sortedTables_def)

lemma map_fst_sortedTables:
  "mset (map fst (sortedTables tables)) = mset (map tableInfo.tableName tables)"
proof -
  have "mset (map fst (sortedTables tables)) = image_mset fst (mset (sortedTables tables))"
    by simp
  also have "\<dots> = image_mset fst (mset (map (\<lambda>t. (tableInfo.tableName t, code t)) tables))"
    by (simp only: mset_sortedTables)
  also have "\<dots> = mset (map tableInfo.tableName tables)"
    by (simp add: multiset.map_comp comp_def)
  finally show ?thesis .
qed

lemma map_snd_sortedTables:
  "mset (map snd (sortedTables tables)) = mset (map code tables)"
proof -
  have "mset (map snd (sortedTables tables)) = image_mset snd (mset (sortedTables tables))"
    by simp
  also have "\<dots> = image_mset snd (mset (map (\<lambda>t. (tableInfo.tableName t, code t)) tables))"
    by (simp only: mset_sortedTables)
  also have "\<dots> = mset (map code tables)"
    by (simp add: multiset.map_comp comp_def)
  finally show ?thesis .
qed

lemma distinct_names_sortedTables:
  "distinct (map tableInfo.tableName tables) \<Longrightarrow> distinct (map fst (sortedTables tables))"
  using map_fst_sortedTables mset_eq_imp_distinct_iff by blast

lemma distinct_codes_sortedTables:
  "distinct (map code tables) \<Longrightarrow> distinct (map snd (sortedTables tables))"
  using map_snd_sortedTables mset_eq_imp_distinct_iff by blast

text \<open>With distinct constant names, every name of the enumeration denotes its table's code.\<close>

lemma tableConsts_entry:
  assumes "distinct (map tableInfo.tableName tables)" and "e \<in> set (sortedTables tables)"
  shows "tableConsts tables (fst e) = Some (snd e)"
  using assms distinct_names_sortedTables [OF assms(1)] by (simp add: tableConsts_def)

lemma tableConsts_Some:
  assumes "distinct (map tableInfo.tableName tables)" and "t \<in> set tables"
  shows "tableConsts tables (tableInfo.tableName t) = Some (code t)"
proof -
  have "(tableInfo.tableName t, code t) \<in> set (sortedTables tables)"
    using assms(2) by (simp add: set_sortedTables)
  then show ?thesis
    using tableConsts_entry [OF assms(1)] by fastforce
qed

lemma sorted_le_last: "sorted xs \<Longrightarrow> x \<in> set xs \<Longrightarrow> x \<le> last xs"
  by (induction xs) auto

lemma last_code_is_Max:
  assumes "tables \<noteq> []"
  shows "snd (last (sortedTables tables)) = Max (code ` set tables)"
proof -
  let ?cs = "map snd (sortedTables tables)"
  have ne: "?cs \<noteq> []"
    using assms by (simp add: sortedTables_Nil_iff)
  have set_cs: "set ?cs = code ` set tables"
    using map_snd_sortedTables [of tables] by (metis set_mset_mset set_map)
  have "last ?cs \<in> set ?cs"
    using ne by (rule last_in_set)
  moreover have "\<forall>c \<in> set ?cs. c \<le> last ?cs"
    using sorted_sortedTables [of tables] sorted_le_last by blast
  ultimately have "last ?cs = Max (set ?cs)"
    by (metis List.finite_set Max_eqI)
  moreover have "last ?cs = snd (last (sortedTables tables))"
    using ne by (simp add: last_map)
  ultimately show ?thesis
    using set_cs by simp
qed

lemma tableMax_value:
  assumes "tables \<noteq> []" and "distinct (map tableInfo.tableName tables)"
  shows "tableMax tables =
    (if unat (Max (code ` set tables)) + 1 \<le> 255 then Some (Max (code ` set tables) + 1) else None)"
proof -
  have ne: "sortedTables tables \<noteq> []"
    using assms(1) by (simp add: sortedTables_Nil_iff)
  then have "last (sortedTables tables) \<in> set (sortedTables tables)"
    by simp
  then have "tableConsts tables (fst (last (sortedTables tables))) = Some (snd (last (sortedTables tables)))"
    by (rule tableConsts_entry [OF assms(2)])
  then show ?thesis
    using ne by (simp add: tableMax_def Let_def last_code_is_Max [OF assms(1)])
qed

lemma word8_succ:
  fixes m :: "8 word"
  assumes "m \<le> 254"
  shows "unat m + 1 \<le> 255" and "unat (m + 1) = unat m + 1"
proof -
  have "unat m \<le> unat (254 :: 8 word)"
    using assms by (simp add: word_le_nat_alt)
  then show a: "unat m + 1 \<le> 255" by simp
  then show "unat (m + 1) = unat m + 1"
    by (simp add: unat_word_ariths)
qed

lemma sorted_distinct_strict:
  "sorted xs \<Longrightarrow> distinct xs \<Longrightarrow> sorted_wrt (<) xs"
  by (simp add: strict_sorted_iff)

text \<open>
  Claim C3, as amended. For every schema that has at least one table, whose constant names
  are distinct and whose codes are distinct and at most 254, the enumeration writer
  succeeds; the pairs it writes are those of the schema, in strictly ascending order of
  code; \<^verbatim>\<open>tableMax\<close> is the largest code plus one, without wrap-around; \<^verbatim>\<open>tableNone\<close> equals
  \<^verbatim>\<open>tableMax\<close>; and no table has the value of \<^verbatim>\<open>tableNone\<close> as its code.
\<close>

theorem catalog_of_codes_below_255:
  assumes "tables \<noteq> []"
    and "distinct (map tableInfo.tableName tables)"
    and "distinct (map code tables)"
    and "list_all (\<lambda>t. code t \<le> 254) tables"
  shows "\<not> isl (writeTableValues tables)
    \<and> mset (sortedTables tables) = mset (map (\<lambda>t. (tableInfo.tableName t, code t)) tables)
    \<and> sorted_wrt (<) (map snd (sortedTables tables))
    \<and> tableMax tables = Some (Max (code ` set tables) + 1)
    \<and> unat (Max (code ` set tables) + 1) = unat (Max (code ` set tables)) + 1
    \<and> tableNone tables = tableMax tables
    \<and> list_all (\<lambda>t. tableNone tables \<noteq> Some (code t)) tables"
proof -
  let ?m = "Max (code ` set tables)"
  have "?m \<in> code ` set tables"
    using assms(1) by (intro Max_in) auto
  then have m_le: "?m \<le> 254"
    using assms(4) by (auto simp: list_all_iff)
  have max: "tableMax tables = Some (?m + 1)"
    using tableMax_value [OF assms(1,2)] word8_succ(1) [OF m_le] by simp
  have succ: "unat (?m + 1) = unat ?m + 1"
    by (rule word8_succ(2) [OF m_le])
  have above: "?m + 1 \<noteq> code t" if "t \<in> set tables" for t
  proof -
    have "code t \<le> ?m"
      using that by (intro Max_ge) auto
    then have "unat (code t) \<le> unat ?m"
      by (simp add: word_le_nat_alt)
    then show ?thesis
      using succ by auto
  qed
  have "\<not> isl (writeTableValues tables)"
    using assms(1) by (simp add: writeTableValues_def Let_def sortedTables_Nil_iff)
  moreover have "sorted_wrt (<) (map snd (sortedTables tables))"
    by (rule sorted_distinct_strict [OF sorted_sortedTables distinct_codes_sortedTables [OF assms(3)]])
  moreover have "list_all (\<lambda>t. tableNone tables \<noteq> Some (code t)) tables"
    by (simp add: list_all_iff tableNone_def max above)
  ultimately show ?thesis
    using max succ by (simp add: mset_sortedTables tableNone_def)
qed

theorem catalog_of_codes_below_255_witness:
  "[exTypeRef, exModule] \<noteq> []
   \<and> distinct (map tableInfo.tableName [exTypeRef, exModule])
   \<and> distinct (map code [exTypeRef, exModule])
   \<and> list_all (\<lambda>t. code t \<le> 254) [exTypeRef, exModule]
   \<and> \<not> isl (writeTableValues [exTypeRef, exModule])
   \<and> sortedTables [exTypeRef, exModule] = [(''tableModule'', 0), (''tableTypeRef'', 1)]
   \<and> tableMax [exTypeRef, exModule] = Some 2
   \<and> tableNone [exTypeRef, exModule] = Some 2"
proof -
  have h: "[exTypeRef, exModule] \<noteq> []"
    "distinct (map tableInfo.tableName [exTypeRef, exModule])"
    "distinct (map code [exTypeRef, exModule])"
    "list_all (\<lambda>t. code t \<le> 254) [exTypeRef, exModule]"
    by (simp_all add: exTypeRef_def exModule_def)
  have s: "sortedTables [exTypeRef, exModule] = [(''tableModule'', 0), (''tableTypeRef'', 1)]"
    by (simp add: sortedTables_def exTypeRef_def exModule_def)
  show ?thesis
    using h s catalog_of_codes_below_255 [OF h]
    by (simp add: exTypeRef_def exModule_def)
qed

text \<open>
  The claim as it stands fails on the schema without tables, where the writer panics, and
  on a schema with the code 255, where \<^verbatim>\<open>tableMax\<close> would be 256 and the emitted constant
  block defines none.
\<close>

theorem catalog_counterexample:
  "writeTableValues [] = Inl PanicIndexOutOfRange
   \<and> distinct (map code [exLast]) \<and> code exLast = 255 \<and> tableMax [exLast] = None"
  by (simp add: writeTableValues_def sortedTables_def tableMax_def tableConsts_def exLast_def)

subsection \<open>Faults of the whole run\<close>

lemma fieldStep_fatal_iff: "isl (fieldStep t f) \<longleftrightarrow> \<not> uintSizeOk f"
  by (cases "columnType f") (auto simp: uintSizeOk_def fieldStep_def uintFn_def)

lemma tableSteps_fatal_iff: "isl (tableSteps t fs) \<longleftrightarrow> \<not> list_all uintSizeOk fs"
proof (induction fs)
  case Nil
  then show ?case by simp
next
  case (Cons f fs)
  then show ?case
    using fieldStep_fatal_iff [of t f] by (auto split: sum.splits)
qed

lemma encodeTables_fatal_iff:
  "isl (encodeTables tables) \<longleftrightarrow> \<not> list_all (\<lambda>t. list_all uintSizeOk (fields' t)) tables"
proof (induction tables)
  case Nil
  then show ?case by simp
next
  case (Cons t ts)
  then show ?case
    using tableSteps_fatal_iff [of t "fields' t"]
    by (auto simp: tableDecode_def split: sum.splits)
qed

text \<open>The run ends in a fault exactly on an empty schema or an unsupported integer size.\<close>

lemma generate_fault_iff:
  "isl (generate tables) \<longleftrightarrow>
     tables = [] \<or> \<not> list_all (\<lambda>t. list_all uintSizeOk (fields' t)) tables"
proof -
  have v: "isl (writeTableValues tables) \<longleftrightarrow> tables = []"
    by (simp add: writeTableValues_def Let_def sortedTables_Nil_iff)
  have e: "isl (writeTableEncoding tables) \<longleftrightarrow>
      \<not> list_all (\<lambda>t. list_all uintSizeOk (fields' t)) tables"
    using encodeTables_fatal_iff [of tables]
    by (auto simp: writeTableEncoding_def split: sum.splits)
  show ?thesis
    using v e by (auto simp: generate_def split: sum.splits)
qed

lemma supported_uintSizeOk:
  "list_all supportedTable tables \<Longrightarrow> list_all (\<lambda>t. list_all uintSizeOk (fields' t)) tables"
  by (auto simp: list_all_iff supportedTable_def supportedField_def)

lemma generate_supported:
  assumes "tables \<noteq> []" and "list_all supportedTable tables"
  shows "\<not> isl (generate tables)"
  using assms supported_uintSizeOk [OF assms(2)] by (simp add: generate_fault_iff)

text \<open>
  Claim C4, as amended. The enumeration writer checks nothing about the codes: on every
  schema with at least one table it succeeds, whether or not codes repeat, and writes one
  constant per table, so that two tables with the same code both appear, with the same
  value. Nor does any other writer look at the codes: a run on such a schema whose fields
  are all within the data model ends with the full buffer.
\<close>

theorem writeTableValues_checks_no_codes:
  assumes "tables \<noteq> []"
  shows "\<not> isl (writeTableValues tables)
    \<and> mset (sortedTables tables) = mset (map (\<lambda>t. (tableInfo.tableName t, code t)) tables)
    \<and> (list_all supportedTable tables \<longrightarrow> \<not> isl (generate tables))"
  using assms generate_supported [OF assms]
  by (simp add: writeTableValues_def Let_def sortedTables_Nil_iff mset_sortedTables)

theorem writeTableValues_checks_no_codes_witness:
  "[exDupA, exDupB] \<noteq> []
   \<and> code exDupA = code exDupB
   \<and> list_all supportedTable [exDupA, exDupB]
   \<and> \<not> isl (writeTableValues [exDupA, exDupB])
   \<and> set (sortedTables [exDupA, exDupB]) = {(''tableA'', 5), (''tableB'', 5)}
   \<and> \<not> isl (generate [exDupA, exDupB])"
proof -
  have h: "[exDupA, exDupB] \<noteq> []"
    by simp
  have s: "list_all supportedTable [exDupA, exDupB]"
    by (simp add: supportedTable_def supportedField_def knownKind_def uintSizeOk_def
        exDupA_def exDupB_def uintField_def heapField_def)
  have e: "set (sortedTables [exDupA, exDupB]) = {(''tableA'', 5), (''tableB'', 5)}"
    by (auto simp: sortedTables_def exDupA_def exDupB_def)
  show ?thesis
    using writeTableValues_checks_no_codes [OF h] s e
    by (simp add: exDupA_def exDupB_def)
qed

text \<open>
  The claim as it stands fails on two tables that share the code 5: no writer reports a
  fault and the buffer is produced.
\<close>

theorem duplicate_codes_counterexample:
  "code exDupA = code exDupB
   \<and> \<not> isl (writeTableValues [exDupA, exDupB])
   \<and> \<not> isl (generate [exDupA, exDupB])"
proof -
  have s: "list_all supportedTable [exDupA, exDupB]"
    by (simp add: supportedTable_def supportedField_def knownKind_def uintSizeOk_def
        exDupA_def exDupB_def uintField_def heapField_def)
  have "\<not> isl (generate [exDupA, exDupB])"
    by (rule generate_supported [OF _ s]) simp
  moreover have "\<not> isl (writeTableValues [exDupA, exDupB])"
    by (simp add: writeTableValues_def Let_def sortedTables_Nil_iff)
  ultimately show ?thesis
    by (simp add: exDupA_def exDupB_def)
qed

subsection \<open>Properties of the dispatch\<close>

lemma codedCases_eq:
  "codedCases tables = map (\<lambda>t. (tableInfo.tableName t, tableInfo.name t)) (filter exported tables)"
  by (induction tables) auto

lemma switchTable_Some:
  "switchTable env cs tag = Some n \<Longrightarrow> \<exists>c \<in> set cs. env (fst c) = Some tag \<and> snd c = n"
  by (induction cs) (auto split: if_splits)

lemma switchTable_None:
  "(\<forall>c \<in> set cs. env (fst c) \<noteq> Some tag) \<Longrightarrow> switchTable env cs tag = None"
  by (induction cs) auto

text \<open>
  Claim C5. The dispatch has cases for exported tables only. For a schema with distinct
  constant names: whenever the emitted \<^verbatim>\<open>CodedTable\<close> returns a table, that table is an
  exported table of the schema whose code is the tag; and for a tag that is the code of no
  exported table (the code of an internal table, or of no table at all) it returns
  \<^verbatim>\<open>nil\<close>. Being a switch with a default, it has no other outcome.
\<close>

theorem CodedTable_visible_only:
  assumes "distinct (map tableInfo.tableName tables)"
  shows "(CodedTable tables tag = Some n \<longrightarrow>
            (\<exists>t \<in> set tables. exported t \<and> code t = tag \<and> tableInfo.name t = n))
    \<and> ((\<forall>t \<in> set tables. exported t \<longrightarrow> code t \<noteq> tag) \<longrightarrow> CodedTable tables tag = None)"
proof (intro conjI impI)
  assume "CodedTable tables tag = Some n"
  then obtain c where c: "c \<in> set (codedCases tables)" "tableConsts tables (fst c) = Some tag"
      "snd c = n"
    unfolding CodedTable_def by (blast dest: switchTable_Some)
  from c(1) obtain t where t: "t \<in> set tables" "exported t"
      "c = (tableInfo.tableName t, tableInfo.name t)"
    by (auto simp: codedCases_eq)
  have "tableConsts tables (fst c) = Some (code t)"
    using tableConsts_Some [OF assms t(1)] t(3) by simp
  with c(2) have "code t = tag"
    by simp
  with t c(3) show "\<exists>t \<in> set tables. exported t \<and> code t = tag \<and> tableInfo.name t = n"
    by auto
next
  assume none: "\<forall>t \<in> set tables. exported t \<longrightarrow> code t \<noteq> tag"
  have "\<forall>c \<in> set (codedCases tables). tableConsts tables (fst c) \<noteq> Some tag"
  proof
    fix c assume "c \<in> set (codedCases tables)"
    then obtain t where t: "t \<in> set tables" "exported t"
        "c = (tableInfo.tableName t, tableInfo.name t)"
      by (auto simp: codedCases_eq)
    have "tableConsts tables (fst c) = Some (code t)"
      using tableConsts_Some [OF assms t(1)] t(3) by simp
    then show "tableConsts tables (fst c) \<noteq> Some tag"
      using none t by auto
  qed
  then show "CodedTable tables tag = None"
    unfolding CodedTable_def by (rule switchTable_None)
qed

theorem CodedTable_visible_only_witness:
  "distinct (map tableInfo.tableName [exModule, exTypeRef, exFieldPtr])
   \<and> CodedTable [exModule, exTypeRef, exFieldPtr] 1 = Some ''TypeRef''
   \<and> exported exTypeRef \<and> code exTypeRef = 1
   \<and> \<not> exported exFieldPtr \<and> code exFieldPtr = 3
   \<and> CodedTable [exModule, exTypeRef, exFieldPtr] 3 = None
   \<and> CodedTable [exModule, exTypeRef, exFieldPtr] 200 = None"
proof -
  have d: "distinct (map tableInfo.tableName [exModule, exTypeRef, exFieldPtr])"
    by (simp add: exModule_def exTypeRef_def exFieldPtr_def)
  have "CodedTable [exModule, exTypeRef, exFieldPtr] 3 = None"
    using CodedTable_visible_only [OF d, of 3]
    by (simp add: exModule_def exTypeRef_def exFieldPtr_def)
  moreover have "CodedTable [exModule, exTypeRef, exFieldPtr] 200 = None"
    using CodedTable_visible_only [OF d, of 200]
    by (simp add: exModule_def exTypeRef_def exFieldPtr_def)
  moreover have "CodedTable [exModule, exTypeRef, exFieldPtr] 1 = Some ''TypeRef''"
    by (simp add: CodedTable_def tableConsts_def sortedTables_def
        exModule_def exTypeRef_def exFieldPtr_def)
  ultimately show ?thesis
    using d by (simp add: exTypeRef_def exFieldPtr_def)
qed

subsection \<open>Properties of the accessors\<close>

lemma initCalls_eq:
  "initCalls tables = map (\<lambda>t. (tableInfo.name t, tableInfo.tableName t)) (filter exported tables)"
  by (induction tables) auto

lemma structMembers_eq:
  "structMembers tables = map tableInfo.name (filter exported tables)"
  by (induction tables) auto

text \<open>
  Claim C6, as amended. The struct has one member and the initialiser one call per
  exported table and none for the others, each call passing the constant of its table,
  whose value is the table's code when constant names are distinct. Members and calls
  stand in the order in which the schema lists the exported tables; the writer sorts
  nothing. The ids of the calls are therefore in ascending order exactly when the schema
  lists its exported tables in ascending order of code, as it does in particular when the
  whole schema is in that order.
\<close>

theorem initTables_in_schema_order:
  "initCalls tables = map (\<lambda>t. (tableInfo.name t, tableInfo.tableName t)) (filter exported tables)
   \<and> structMembers tables = map tableInfo.name (filter exported tables)
   \<and> length (initCalls tables) = length (filter exported tables)
   \<and> (distinct (map tableInfo.tableName tables) \<longrightarrow>
        initIds tables = map (\<lambda>t. Some (code t)) (filter exported tables)
        \<and> (sorted (map the (initIds tables)) \<longleftrightarrow> sorted (map code (filter exported tables))))
   \<and> (sorted (map code tables) \<longrightarrow> sorted (map code (filter exported tables)))"
proof -
  have ids: "initIds tables = map (\<lambda>t. Some (code t)) (filter exported tables)"
    if "distinct (map tableInfo.tableName tables)"
    by (simp add: initIds_def initCalls_eq tableConsts_Some [OF that])
  have "map the (initIds tables) = map code (filter exported tables)"
    if "distinct (map tableInfo.tableName tables)"
    by (simp add: ids [OF that] comp_def)
  then have order: "sorted (map the (initIds tables)) \<longleftrightarrow> sorted (map code (filter exported tables))"
    if "distinct (map tableInfo.tableName tables)"
    using that by simp
  have sub: "sorted (map code (filter exported tables))" if "sorted (map code tables)"
    using that by (metis sorted_filter)
  from ids order sub show ?thesis
    by (simp add: initCalls_eq structMembers_eq)
qed

theorem initTables_in_schema_order_witness:
  "distinct (map tableInfo.tableName [exModule, exTypeRef, exFieldPtr])
   \<and> sorted (map code [exModule, exTypeRef, exFieldPtr])
   \<and> initCalls [exModule, exTypeRef, exFieldPtr] = [(''Module'', ''tableModule''), (''TypeRef'', ''tableTypeRef'')]
   \<and> initIds [exModule, exTypeRef, exFieldPtr] = [Some 0, Some 1]
   \<and> distinct (map tableInfo.tableName [exFieldPtr, exModule, exTypeRef])
   \<and> \<not> sorted (map code [exFieldPtr, exModule, exTypeRef])
   \<and> sorted (map code (filter exported [exFieldPtr, exModule, exTypeRef]))
   \<and> sorted (map the (initIds [exFieldPtr, exModule, exTypeRef]))
   \<and> initIds [exFieldPtr, exModule, exTypeRef] = [Some 0, Some 1]"
proof -
  have d: "distinct (map tableInfo.tableName [exModule, exTypeRef, exFieldPtr])"
    by (simp add: exModule_def exTypeRef_def exFieldPtr_def)
  have d': "distinct (map tableInfo.tableName [exFieldPtr, exModule, exTypeRef])"
    by (simp add: exModule_def exTypeRef_def exFieldPtr_def)
  have first: "initCalls [exModule, exTypeRef, exFieldPtr]
        = [(''Module'', ''tableModule''), (''TypeRef'', ''tableTypeRef'')]
      \<and> initIds [exModule, exTypeRef, exFieldPtr] = [Some 0, Some 1]
      \<and> sorted (map code [exModule, exTypeRef, exFieldPtr])"
    using d initTables_in_schema_order [of "[exModule, exTypeRef, exFieldPtr]"]
    by (simp add: exModule_def exTypeRef_def exFieldPtr_def)
  have second: "initIds [exFieldPtr, exModule, exTypeRef] = [Some 0, Some 1]
      \<and> sorted (map the (initIds [exFieldPtr, exModule, exTypeRef]))
      \<and> sorted (map code (filter exported [exFieldPtr, exModule, exTypeRef]))
      \<and> \<not> sorted (map code [exFieldPtr, exModule, exTypeRef])"
    using d' initTables_in_schema_order [of "[exFieldPtr, exModule, exTypeRef]"]
    by (simp add: exModule_def exTypeRef_def exFieldPtr_def)
  from d d' first second show ?thesis
    by blast
qed

text \<open>
  The claim as it stands fails on a schema that lists the table of code 1 before the table
  of code 0: the initialiser keeps that order, the enumeration does not.
\<close>

theorem initTables_order_counterexample:
  "exported exTypeRef \<and> exported exModule
   \<and> initCalls [exTypeRef, exModule] = [(''TypeRef'', ''tableTypeRef''), (''Module'', ''tableModule'')]
   \<and> initIds [exTypeRef, exModule] = [Some 1, Some 0]
   \<and> sortedTables [exTypeRef, exModule] = [(''tableModule'', 0), (''tableTypeRef'', 1)]"
  by (simp add: initIds_def tableConsts_def sortedTables_def exModule_def exTypeRef_def)

subsection \<open>Properties of the width function\<close>

text \<open>The loop over the fields fills slot \<open>i + k\<close> from field \<open>k\<close> and leaves the others alone.\<close>

lemma length_fillWidth: "length (fillWidth cs i width) = length width"
  by (induction cs i width rule: fillWidth.induct) (auto split: columnType.splits)

lemma fillWidth_below: "j < i \<Longrightarrow> fillWidth cs i width ! j = width ! j"
  by (induction cs i width rule: fillWidth.induct) (auto split: columnType.splits)

lemma fillWidth_nth:
  "k < length cs \<Longrightarrow> i + k < length width \<Longrightarrow>
   fillWidth cs i width ! (i + k) =
     (case specWidthTerm (cs ! k) of Some w \<Rightarrow> w | None \<Rightarrow> width ! (i + k))"
proof (induction cs i width arbitrary: k rule: fillWidth.induct)
  case (1 i width)
  then show ?case by simp
next
  case (2 c cs i width)
  show ?case
  proof (cases k)
    case 0
    then show ?thesis
      using "2.prems" by (simp add: fillWidth_below specWidthTerm_def split: columnType.splits)
  next
    case (Suc k')
    then show ?thesis
      using "2.prems" "2.IH" [of k']
      by (simp add: specWidthTerm_def split: columnType.splits)
  qed
qed

lemma tableWidth_nth:
  assumes "k < length (fields' t)"
  shows "tableWidth t ! k = (case specWidthTerm (fields' t ! k) of Some w \<Rightarrow> w | None \<Rightarrow> NoTerm)"
  using fillWidth_nth [of k "fields' t" 0 "replicate (length (fields' t)) NoTerm"] assms
  by (simp add: tableWidth_def split: option.splits)

lemma length_tableWidth: "length (tableWidth t) = length (fields' t)"
  by (simp add: tableWidth_def length_fillWidth)

lemma tableWidth_eq:
  "tableWidth t = map (\<lambda>c. case specWidthTerm c of Some w \<Rightarrow> w | None \<Rightarrow> NoTerm) (fields' t)"
  by (rule nth_equalityI) (simp_all add: length_tableWidth tableWidth_nth)

subsection \<open>The value of the width expression\<close>

lemma toUint8_Some: "toUint8 n = Some x \<Longrightarrow> x = word_of_int n \<and> 0 \<le> n \<and> n \<le> 255"
  by (auto simp: toUint8_def split: if_splits)

lemma goAdd_asWord: "goAdd a b = Some c \<Longrightarrow> asWord c = asWord a + asWord b"
  by (cases a; cases b) (auto dest: toUint8_Some)

lemma termValue_asWord: "termValue la w = Some v \<Longrightarrow> asWord v = word_of_int (termInt la w)"
  by (cases w) auto

lemma evalSum_asWord:
  "evalSum la acc ws = Some r \<Longrightarrow>
   asWord r = asWord acc + word_of_int (sum_list (map (termInt la) ws))"
proof (induction ws arbitrary: acc)
  case Nil
  then show ?case by simp
next
  case (Cons w ws)
  from Cons.prems obtain v acc' where v: "termValue la w = Some v"
    and a: "goAdd acc v = Some acc'" and r: "evalSum la acc' ws = Some r"
    by (auto split: option.splits)
  have "asWord r = asWord acc' + word_of_int (sum_list (map (termInt la) ws))"
    by (rule Cons.IH [OF r])
  also have "asWord acc' = asWord acc + word_of_int (termInt la w)"
    using goAdd_asWord [OF a] termValue_asWord [OF v] by simp
  finally show ?case
    by (simp add: add.assoc)
qed

lemma returnUint8_asWord: "returnUint8 r = Some x \<Longrightarrow> x = asWord r"
  by (cases r) (auto dest: toUint8_Some)

lemma sum_operands:
  "sum_list (map (termInt la) (operands ws)) = sum_list (map (termInt la) ws)"
  by (induction ws) (simp_all add: operands_def)

lemma returnAs_Some: "returnAs ty r = Some x \<Longrightarrow> ty = ''uint8'' \<and> returnUint8 r = Some x"
  by (simp add: returnAs_def split: if_splits)

lemma evalTerms_word:
  assumes "evalTerms ty la ws = Some x"
  shows "x = word_of_int (sum_list (map (termInt la) ws))"
proof -
  from assms obtain w ws' v r where o: "operands ws = w # ws'"
    and v: "termValue la w = Some v"
    and s: "evalSum la v ws' = Some r" and x: "returnAs ty r = Some x"
    by (auto simp: evalTerms_def split: if_splits list.splits option.splits)
  have "x = asWord r"
    using returnAs_Some [OF x] by (simp add: returnUint8_asWord)
  also have "\<dots> = word_of_int (termInt la w) + word_of_int (sum_list (map (termInt la) ws'))"
    using evalSum_asWord [OF s] termValue_asWord [OF v] by simp
  also have "\<dots> = word_of_int (sum_list (map (termInt la) (operands ws)))"
    by (simp add: o)
  finally show ?thesis
    by (simp only: sum_operands)
qed

text \<open>An empty slot before an operand is only a sign; an empty last slot leaves no expression.\<close>

lemma empty_slots:
  "evalTerms ''uint8'' la [NoTerm, StringSize] = Some (stringSize la)
   \<and> evalTerms ''uint8'' la [StringSize, NoTerm, Literal 2] = Some (stringSize la + 2)
   \<and> evalTerms ''uint8'' la [StringSize, NoTerm] = None
   \<and> evalTerms ''uint8'' la [NoTerm] = None
   \<and> evalTerms ''uint8'' la [] = None"
  by (simp add: evalTerms_def operands_def returnAs_def toUint8_def)

lemma uint_word8_of_int: "uint (word_of_int k :: 8 word) = k mod 256"
  by (simp add: uint_word_of_int)

lemma evalWidth_modulo:
  assumes "evalWidth la t = Some w"
  shows "uint w = widthSum la t mod 256
    \<and> (255 < widthSum la t \<longrightarrow> uint w \<noteq> widthSum la t)"
proof -
  have "w = word_of_int (widthSum la t)"
    using evalTerms_word assms by (simp add: evalWidth_def widthSum_def)
  then have m: "uint w = widthSum la t mod 256"
    by (simp only: uint_word8_of_int)
  have lt: "uint w < 256"
    unfolding m by simp
  have "uint w \<noteq> widthSum la t" if "255 < widthSum la t"
    using that lt by linarith
  with m show ?thesis
    by blast
qed

text \<open>
  Claim C1. For every table whose fields are all of the specification's kinds, the terms
  the writer collects are, field by field and in the order of the fields, the terms the
  specification assigns by kind: the size as a constant for a fixed integer, the layout's
  width of the heap for a heap index, the layout's index width of the target table for a
  table reference and, the same, for a row range, the layout's width of the scheme for a
  coded reference. The emitted \<^verbatim>\<open>return\<close> is the text of these terms joined by \<^verbatim>\<open>+\<close>, and
  what the emitted expression returns is the sum of the numbers these terms stand for, as
  a \<^verbatim>\<open>uint8\<close>.
\<close>

theorem width_formula_is_sum_of_field_terms:
  assumes "list_all knownKind (fields' t)"
  shows "map Some (tableWidth t) = map specWidthTerm (fields' t)
    \<and> widthCase t =
        tab @ ''case '' @ tableInfo.tableName t @ '':'' @ nl
        @ tab @ tab @ ''return ''
        @ Join (map (\<lambda>c. renderTerm (the (specWidthTerm c))) (fields' t)) '' + '' @ nl
    \<and> (evalWidth la t = Some x \<longrightarrow>
          uint x = (\<Sum>c\<leftarrow>fields' t. termInt la (the (specWidthTerm c))) mod 256)"
proof -
  have some: "specWidthTerm c \<noteq> None" if "c \<in> set (fields' t)" for c
    using assms that
    by (auto simp: list_all_iff knownKind_def specWidthTerm_def split: columnType.splits)
  have w: "tableWidth t = map (\<lambda>c. the (specWidthTerm c)) (fields' t)"
    unfolding tableWidth_eq using some by (force split: option.splits)
  have "map Some (tableWidth t) = map specWidthTerm (fields' t)"
    unfolding w using some by auto
  moreover have "uint x = (\<Sum>c\<leftarrow>fields' t. termInt la (the (specWidthTerm c))) mod 256"
    if "evalWidth la t = Some x"
    using evalWidth_modulo [OF that] by (simp add: widthSum_def w comp_def)
  ultimately show ?thesis
    by (simp add: widthCase_def w comp_def)
qed

theorem width_formula_is_sum_of_field_terms_witness:
  "list_all knownKind (fields' exTypeDef)
   \<and> tableWidth exTypeDef =
       [Literal 4, StringSize, CodedSize ''TypeDefOrRef'', SimpleSize ''tableField'']
   \<and> widthCase exTypeDef =
       tab @ ''case tableTypeDef:'' @ nl
       @ tab @ tab
       @ ''return 4 + la.stringSize + la.codedSizes[codedTypeDefOrRef] + la.simpleSizes[tableField]''
       @ nl
   \<and> evalWidth exLayout exTypeDef = Some 12
   \<and> uint (12 :: 8 word) = (4 + 4 + 2 + 2) mod 256"
proof -
  have h: "list_all knownKind (fields' exTypeDef)"
    by (simp add: exTypeDef_def knownKind_def uintField_def heapField_def refField_def codedField_def)
  have four: "Itoa 4 = ''4''"
    by (simp add: Itoa_def natDec.simps digitChar_def)
  have w: "tableWidth exTypeDef =
      [Literal 4, StringSize, CodedSize ''TypeDefOrRef'', SimpleSize ''tableField'']"
    by (simp add: tableWidth_eq exTypeDef_def specWidthTerm_def uintField_def heapField_def refField_def codedField_def)
  have c: "widthCase exTypeDef =
       tab @ ''case tableTypeDef:'' @ nl
       @ tab @ tab
       @ ''return 4 + la.stringSize + la.codedSizes[codedTypeDefOrRef] + la.simpleSizes[tableField]''
       @ nl"
    using width_formula_is_sum_of_field_terms [OF h]
    by (simp add: exTypeDef_def specWidthTerm_def uintField_def heapField_def refField_def codedField_def four)
  have e: "evalWidth exLayout exTypeDef = Some 12"
    by (simp add: evalWidth_def w evalTerms_def operands_def returnAs_def widthResultType_def
        toUint8_def exLayout_def)
  have "uint (12 :: 8 word) = (4 + 4 + 2 + 2) mod 256"
    using width_formula_is_sum_of_field_terms [OF h, of exLayout 12] e
    by (simp add: exTypeDef_def specWidthTerm_def exLayout_def
        uintField_def heapField_def refField_def codedField_def)
  then show ?thesis
    using h w c e by simp
qed

lemma step_Typed_ok:
  "okTerm w \<Longrightarrow> \<exists>v y. termValue la w = Some v \<and> goAdd (Typed x) v = Some (Typed y)"
  by (cases w) (simp_all add: toUint8_def)

lemma evalSum_Typed_total:
  "list_all okTerm ws \<Longrightarrow> \<exists>y. evalSum la (Typed x) ws = Some (Typed y)"
proof (induction ws arbitrary: x)
  case Nil
  then show ?case by simp
next
  case (Cons w ws)
  then have "okTerm w" and ws: "list_all okTerm ws" by simp_all
  then obtain v y where v: "termValue la w = Some v" "goAdd (Typed x) v = Some (Typed y)"
    using step_Typed_ok by blast
  obtain z where "evalSum la (Typed y) ws = Some (Typed z)"
    using Cons.IH [OF ws] by blast
  then show ?case
    using v by simp
qed

lemma evalSum_Untyped_total:
  "list_all okTerm ws \<Longrightarrow> 0 \<le> a \<Longrightarrow> a + leadingLiterals ws \<le> 255 \<Longrightarrow>
   \<exists>r x. evalSum la (Untyped a) ws = Some r \<and> returnUint8 r = Some x"
proof (induction ws arbitrary: a)
  case Nil
  then show ?case by (simp add: toUint8_def)
next
  case (Cons w ws)
  show ?case
  proof (cases "\<exists>n. w = Literal n")
    case True
    then obtain n where n: "w = Literal n" by blast
    with Cons.prems have "0 \<le> n" "list_all okTerm ws" "a + n + leadingLiterals ws \<le> 255"
      by simp_all
    with Cons.prems(2) Cons.IH [of "a + n"] show ?thesis
      by (simp add: n)
  next
    case False
    with Cons.prems have a: "a \<le> 255"
      by (cases w) simp_all
    from False Cons.prems(1) obtain y where y: "termValue la w = Some (Typed y)"
      by (cases w) simp_all
    have "list_all okTerm ws"
      using Cons.prems(1) by simp
    then obtain z where "evalSum la (Typed (word_of_int a + y)) ws = Some (Typed z)"
      using evalSum_Typed_total by blast
    then show ?thesis
      using y a Cons.prems(2) by (simp add: toUint8_def)
  qed
qed

lemma okTerm_operands: "list_all okTerm ws \<Longrightarrow> operands ws = ws"
  by (induction ws) (auto simp: operands_def)

lemma okTerm_last: "list_all okTerm ws \<Longrightarrow> ws \<noteq> [] \<Longrightarrow> last ws \<noteq> NoTerm"
  by (induction ws) auto

lemma evalTerms_total:
  assumes "ws \<noteq> []" and "list_all okTerm ws" and "leadingLiterals ws \<le> 255"
  shows "\<exists>x. evalTerms ''uint8'' la ws = Some x"
proof (cases ws)
  case Nil
  with assms show ?thesis by simp
next
  case (Cons w ws')
  have ws': "list_all okTerm ws'"
    using assms(2) Cons by simp
  have shape: "\<not> (ws = [] \<or> last ws = NoTerm)" "operands ws = w # ws'"
    using assms(1) okTerm_last [OF assms(2,1)] okTerm_operands [OF assms(2)] Cons by simp_all
  show ?thesis
  proof (cases "\<exists>n. w = Literal n")
    case True
    then obtain n where n: "w = Literal n" by blast
    with assms Cons have "0 \<le> n" "n + leadingLiterals ws' \<le> 255"
      by simp_all
    then obtain r x where "evalSum la (Untyped n) ws' = Some r" "returnUint8 r = Some x"
      using evalSum_Untyped_total [OF ws'] by blast
    then show ?thesis
      using shape by (simp add: evalTerms_def returnAs_def n)
  next
    case False
    with assms(2) Cons obtain y where y: "termValue la w = Some (Typed y)"
      by (cases w) simp_all
    obtain z where "evalSum la (Typed y) ws' = Some (Typed z)"
      using evalSum_Typed_total [OF ws'] by blast
    then show ?thesis
      using y shape by (simp add: evalTerms_def returnAs_def)
  qed
qed

text \<open>A sum whose leading literals exceed 255 is rejected.\<close>

lemma evalSum_Untyped_rejected:
  "255 < a + leadingLiterals ws \<Longrightarrow> evalSum la (Untyped a) ws = Some r \<Longrightarrow> returnUint8 r = None"
proof (induction ws arbitrary: a)
  case Nil
  then show ?case by (auto simp: toUint8_def)
next
  case (Cons w ws)
  show ?case
  proof (cases "\<exists>n. w = Literal n")
    case True
    then obtain n where n: "w = Literal n" by blast
    with Cons.prems have "255 < (a + n) + leadingLiterals ws"
      "evalSum la (Untyped (a + n)) ws = Some r"
      by simp_all
    then show ?thesis
      by (rule Cons.IH)
  next
    case False
    then have "255 < a"
      using Cons.prems(1) by (cases w) simp_all
    then have "toUint8 a = None"
      by (simp add: toUint8_def)
    then show ?thesis
      using False Cons.prems(2) by (cases w) simp_all
  qed
qed

lemma evalTerms_rejected:
  assumes "list_all okTerm ws" and "255 < leadingLiterals ws"
  shows "evalTerms ty la ws = None"
proof (cases ws)
  case Nil
  then show ?thesis by (simp add: evalTerms_def)
next
  case (Cons w ws')
  from assms(2) Cons obtain n where n: "w = Literal n"
    by (cases w) simp_all
  have o: "operands ws = Literal n # ws'"
    using okTerm_operands [OF assms(1)] Cons n by simp
  have "returnUint8 r = None" if "evalSum la (Untyped n) ws' = Some r" for r
    using assms(2) Cons n that by (intro evalSum_Untyped_rejected [of n ws' la r]) simp_all
  then show ?thesis
    by (auto simp: evalTerms_def o returnAs_def split: option.splits)
qed

lemma supported_okTerm:
  assumes "supportedField c"
  shows "okTerm (case specWidthTerm c of Some w \<Rightarrow> w | None \<Rightarrow> NoTerm)"
  using assms
  by (cases "columnType c")
    (auto simp: supportedField_def knownKind_def uintSizeOk_def specWidthTerm_def)

lemma supported_okTerms:
  assumes "supportedTable t"
  shows "list_all okTerm (tableWidth t)"
  using assms unfolding tableWidth_eq
  by (simp add: list_all_iff supportedTable_def supported_okTerm)

lemma evalWidth_total:
  assumes "fields' t \<noteq> []" and "supportedTable t" and "leadingLiterals (tableWidth t) \<le> 255"
  shows "\<exists>x. evalWidth la t = Some x"
proof -
  have "tableWidth t \<noteq> []"
    using assms(1) length_tableWidth [of t] by (metis length_0_conv)
  then show ?thesis
    unfolding evalWidth_def widthResultType_def
    by (rule evalTerms_total [OF _ supported_okTerms [OF assms(2)] assms(3)])
qed

lemma evalWidth_rejected:
  assumes "supportedTable t" and "255 < leadingLiterals (tableWidth t)"
  shows "evalWidth la t = None"
  unfolding evalWidth_def by (rule evalTerms_rejected [OF supported_okTerms [OF assms(1)] assms(2)])

lemma exWide_terms: "tableWidth exWide = replicate 64 StringSize"
  by (simp add: tableWidth_eq exWide_def specWidthTerm_def heapField_def comp_def map_replicate_const)

lemma evalSum_replicate:
  "evalSum la (Typed x) (replicate n StringSize) = Some (Typed (x + of_nat n * stringSize la))"
  by (induction n arbitrary: x) (simp_all add: algebra_simps)

lemma evalTerms_replicate:
  "evalTerms ''uint8'' la (replicate (Suc n) StringSize) = Some (of_nat (Suc n) * stringSize la)"
proof -
  have "operands (replicate (Suc n) StringSize) = StringSize # replicate n StringSize"
    by (simp add: operands_def)
  moreover have "last (replicate (Suc n) StringSize) = StringSize"
    by (induction n) simp_all
  ultimately show ?thesis
    by (simp add: evalTerms_def returnAs_def evalSum_replicate algebra_simps
        del: replicate_Suc replicate.simps)
qed

lemma exWide_eval: "evalWidth exLayout exWide = Some 0"
proof -
  have "tableWidth exWide = replicate (Suc 63) StringSize"
    by (simp only: exWide_terms) simp
  then have "evalWidth exLayout exWide = Some (of_nat (Suc 63) * stringSize exLayout)"
    by (simp only: evalWidth_def widthResultType_def evalTerms_replicate)
  then show ?thesis
    by (simp add: exLayout_def)
qed

lemma exWide_sum: "widthSum exLayout exWide = 256"
  by (simp add: widthSum_def exWide_terms exLayout_def sum_list_replicate)

lemma exWide_supported: "supportedTable exWide"
  by (simp add: supportedTable_def list_all_iff exWide_def supportedField_def knownKind_def
      uintSizeOk_def heapField_def)

text \<open>The table of 64 four-byte integers: 64 literals, 256 in all.\<close>

lemma exLit_terms: "tableWidth exLit = replicate 64 (Literal 4)"
  by (simp add: tableWidth_eq exLit_def specWidthTerm_def uintField_def comp_def map_replicate_const)

lemma leadingLiterals_replicate: "leadingLiterals (replicate n (Literal k)) = int n * k"
  by (induction n) (simp_all add: algebra_simps)

lemma exLit_supported: "supportedTable exLit"
  by (simp add: supportedTable_def list_all_iff exLit_def supportedField_def knownKind_def
      uintSizeOk_def uintField_def)

lemma exLit_sum: "widthSum exLayout exLit = 256"
  by (simp add: widthSum_def exLit_terms sum_list_replicate)

lemma exLit_leading: "leadingLiterals (tableWidth exLit) = 256"
  by (simp add: exLit_terms leadingLiterals_replicate)

lemma exLit_eval: "evalWidth exLayout exLit = None"
  by (rule evalWidth_rejected [OF exLit_supported]) (simp add: exLit_leading)

lemma signature_text:
  "\<exists>rest. writeTableWidth tables =
     ''// Define table width'' @ nl @ nl
     @ ''func (t table) width(la *layout) (uint8) {'' @ nl @ rest"
  by (simp add: writeTableWidth_def widthResultType_def nl_def)

text \<open>
  Claim C10, as amended. The signature the writer emits gives the function the result
  type \<^verbatim>\<open>uint8\<close>. Whenever the emitted expression of a table is one the Go compiler accepts,
  its value under a layout is the sum of the field terms reduced modulo 256; a sum above
  255 then comes back as a different, smaller number, with no error. The expression is
  accepted for every table that has a field, whose fields are within the data model and
  whose leading constants sum to at most 255. For a table within the data model whose
  leading constants sum to more than 255 it is rejected: there the generated file does not
  compile, and no width is returned at all.
\<close>

theorem width_is_sum_modulo_256:
  "(\<exists>rest. writeTableWidth tables =
      ''// Define table width'' @ nl @ nl
      @ ''func (t table) width(la *layout) (uint8) {'' @ nl @ rest)
   \<and> (evalWidth la t = Some w \<longrightarrow>
      uint w = widthSum la t mod 256 \<and> (255 < widthSum la t \<longrightarrow> uint w \<noteq> widthSum la t))
   \<and> (fields' t \<noteq> [] \<and> supportedTable t \<and> leadingLiterals (tableWidth t) \<le> 255 \<longrightarrow>
        (\<exists>x. evalWidth la t = Some x))
   \<and> (supportedTable t \<and> 255 < leadingLiterals (tableWidth t) \<longrightarrow> evalWidth la t = None)"
proof -
  have wrapped: "uint w = widthSum la t mod 256 \<and> (255 < widthSum la t \<longrightarrow> uint w \<noteq> widthSum la t)"
    if "evalWidth la t = Some w"
    using that by (rule evalWidth_modulo)
  have accepted: "\<exists>x. evalWidth la t = Some x"
    if "fields' t \<noteq> []" "supportedTable t" "leadingLiterals (tableWidth t) \<le> 255"
    using that by (rule evalWidth_total)
  have rejected: "evalWidth la t = None"
    if "supportedTable t" "255 < leadingLiterals (tableWidth t)"
    using that by (rule evalWidth_rejected)
  from signature_text [of tables] wrapped accepted rejected show ?thesis
    by blast
qed

theorem width_is_sum_modulo_256_witness:
  "evalWidth exLayout exWide = Some 0
   \<and> widthSum exLayout exWide = 256
   \<and> uint (0 :: 8 word) = 256 mod 256
   \<and> fields' exWide \<noteq> []
   \<and> supportedTable exWide
   \<and> leadingLiterals (tableWidth exWide) \<le> 255
   \<and> supportedTable exLit
   \<and> 255 < leadingLiterals (tableWidth exLit)
   \<and> evalWidth exLayout exLit = None"
proof -
  have l: "leadingLiterals (tableWidth exWide) \<le> 255"
    by (simp only: exWide_terms) (simp add: numeral_eq_Suc)
  have f: "fields' exWide \<noteq> []"
    by (simp add: exWide_def)
  have "evalWidth exLayout exLit = None"
    using width_is_sum_modulo_256 [of "[exLit]" exLayout exLit 0] exLit_supported exLit_leading
    by simp
  moreover have "uint (0 :: 8 word) = 256 mod 256"
    using width_is_sum_modulo_256 [of "[exWide]" exLayout exWide 0] exWide_eval exWide_sum
    by simp
  ultimately show ?thesis
    using exWide_eval exWide_sum exWide_supported l f exLit_supported exLit_leading
    by simp
qed

text \<open>
  The claim as it stands fails on a table of 64 four-byte integers: the record is 256
  bytes wide, and the emitted \<^verbatim>\<open>return 4 + 4 + ... + 4\<close> is a constant of 256 that the compiler
  refuses as a \<^verbatim>\<open>uint8\<close>; no wrapped width comes back.
\<close>

theorem width_overflow_counterexample:
  "supportedTable exLit
   \<and> widthSum exLayout exLit = 256
   \<and> tableWidth exLit = replicate 64 (Literal 4)
   \<and> evalWidth exLayout exLit = None"
  using exLit_supported exLit_sum exLit_terms exLit_eval by simp

text \<open>
  Claim C8, as amended. The width writer has no failure path. It produces one slot per
  field; for a field whose column type is none of the seven constants no case of the
  switch assigns the slot, which stays the empty string. Such a field does not end the
  run either: a run on a non-empty schema ends with the full buffer unless a fixed integer
  has a size other than 1, 2 or 4.
\<close>

theorem width_writer_has_no_fault:
  "length (tableWidth t) = length (fields' t)
   \<and> (\<forall>k < length (fields' t). \<not> knownKind (fields' t ! k) \<longrightarrow>
         tableWidth t ! k = NoTerm \<and> renderTerm (tableWidth t ! k) = [])
   \<and> (tables \<noteq> [] \<and> list_all (\<lambda>t. list_all uintSizeOk (fields' t)) tables \<longrightarrow>
         \<not> isl (generate tables))"
proof -
  have "tableWidth t ! k = NoTerm" if "k < length (fields' t)" "\<not> knownKind (fields' t ! k)" for k
    using that
    by (simp add: tableWidth_nth knownKind_def specWidthTerm_def split: columnType.splits)
  then show ?thesis
    by (simp add: length_tableWidth generate_fault_iff)
qed

theorem width_writer_has_no_fault_witness:
  "0 < length (fields' exOdd)
   \<and> \<not> knownKind (fields' exOdd ! 0)
   \<and> tableWidth exOdd ! 0 = NoTerm
   \<and> [exOdd] \<noteq> []
   \<and> list_all (\<lambda>t. list_all uintSizeOk (fields' t)) [exOdd]
   \<and> \<not> isl (generate [exOdd])"
  using width_writer_has_no_fault [of exOdd "[exOdd]"]
  by (simp add: exOdd_def heapField_def knownKind_def uintSizeOk_def)

text \<open>
  The claim as it stands fails on a table with a field of an unknown column type: the
  writer emits \<^verbatim>\<open>return\<close> with an empty term and the run goes on to its end.
\<close>

theorem unknown_kind_counterexample:
  "columnType (hd (fields' exOdd)) = columnTypeOther 9
   \<and> tableWidth exOdd = [NoTerm]
   \<and> widthCase exOdd = tab @ ''case tableOdd:'' @ nl @ tab @ tab @ ''return '' @ nl
   \<and> \<not> isl (generate [exOdd])"
proof -
  have "\<not> isl (generate [exOdd])"
    by (simp add: generate_fault_iff exOdd_def heapField_def uintSizeOk_def)
  then show ?thesis
    by (simp add: tableWidth_eq widthCase_def specWidthTerm_def exOdd_def heapField_def)
qed

subsection \<open>Properties of the decoding methods\<close>

text \<open>
  For a field within the data model the decode writer emits exactly one assignment, to the
  member of the field's name, and the read it calls consumes the width the width writer
  gave the field.
\<close>

lemma fieldStep_supported:
  assumes "supportedField f"
  shows "\<exists>s. fieldStep t f = Inr [s] \<and> target s = fieldInfo.name f
           \<and> int (readWidth la (rd s)) =
               termInt la (case specWidthTerm f of Some w \<Rightarrow> w | None \<Rightarrow> NoTerm)"
  using assms
  by (cases "columnType f")
    (auto simp: supportedField_def knownKind_def uintSizeOk_def fieldStep_def uintFn_def
      specWidthTerm_def)

lemma tableSteps_supported:
  assumes "list_all supportedField fs"
  shows "\<exists>ss. tableSteps t fs = Inr ss \<and> length ss = length fs
          \<and> map target ss = map fieldInfo.name fs
          \<and> map (\<lambda>s. int (readWidth la (rd s))) ss =
              map (\<lambda>f. termInt la (case specWidthTerm f of Some w \<Rightarrow> w | None \<Rightarrow> NoTerm)) fs"
  using assms
proof (induction fs)
  case Nil
  then show ?case by simp
next
  case (Cons f fs)
  then obtain ss where ss: "tableSteps t fs = Inr ss" "length ss = length fs"
      "map target ss = map fieldInfo.name fs"
      "map (\<lambda>s. int (readWidth la (rd s))) ss =
         map (\<lambda>f. termInt la (case specWidthTerm f of Some w \<Rightarrow> w | None \<Rightarrow> NoTerm)) fs"
    by auto
  from Cons.prems obtain s where s: "fieldStep t f = Inr [s]" "target s = fieldInfo.name f"
      "int (readWidth la (rd s)) =
         termInt la (case specWidthTerm f of Some w \<Rightarrow> w | None \<Rightarrow> NoTerm)"
    using fieldStep_supported [of f t la] by auto
  show ?case
    using s ss by simp
qed

lemma int_planWidth: "int (planWidth la ss) = sum_list (map (\<lambda>s. int (readWidth la (rd s))) ss)"
  by (induction ss) (simp_all add: planWidth_def)

lemma plan_of_supported:
  assumes "supportedTable t"
  shows "\<exists>ss. tableDecode t = Inr ss \<and> length ss = length (fields' t)
          \<and> map target ss = map fieldInfo.name (fields' t)
          \<and> map (\<lambda>s. int (readWidth la (rd s))) ss = map (termInt la) (tableWidth t)
          \<and> int (planWidth la ss) = widthSum la t"
proof -
  obtain ss where ss: "tableSteps t (fields' t) = Inr ss" "length ss = length (fields' t)"
      "map target ss = map fieldInfo.name (fields' t)"
      "map (\<lambda>s. int (readWidth la (rd s))) ss =
         map (\<lambda>f. termInt la (case specWidthTerm f of Some w \<Rightarrow> w | None \<Rightarrow> NoTerm)) (fields' t)"
    using tableSteps_supported [of "fields' t" t la] assms by (auto simp: supportedTable_def)
  have w: "map (\<lambda>s. int (readWidth la (rd s))) ss = map (termInt la) (tableWidth t)"
    using ss(4) by (simp add: tableWidth_eq comp_def)
  then have "int (planWidth la ss) = widthSum la t"
    by (simp add: int_planWidth widthSum_def)
  with ss w show ?thesis
    by (simp add: tableDecode_def)
qed

text \<open>The cursor under a sequence of reads.\<close>

lemma cursorRead_ok:
  "err r = None \<Longrightarrow> readWidth la x \<le> length (bytes r) \<Longrightarrow>
   wellFormed sch x (take (readWidth la x) (bytes r)) \<Longrightarrow>
   cursorRead sch la x r
     = (take (readWidth la x) (bytes r), r\<lparr>bytes := drop (readWidth la x) (bytes r)\<rparr>)"
  by (simp add: cursorRead_def Let_def)

lemma cursorRead_fail:
  "\<not> (err r = None \<and> readWidth la x \<le> length (bytes r)
        \<and> wellFormed sch x (take (readWidth la x) (bytes r))) \<Longrightarrow>
   cursorRead sch la x r = ([], r\<lparr>err := Some CursorFault\<rparr>)"
  by (auto simp: cursorRead_def Let_def)

lemma runSteps_advances_gen:
  assumes p: "\<And>x r. p x r = cursorRead sch la x r"
  shows "err r = None \<Longrightarrow> planWidth la ss \<le> length (bytes r) \<Longrightarrow>
   tagsValid sch la ss (bytes r) \<Longrightarrow>
   snd (runSteps p ss (rec, r)) = r\<lparr>bytes := drop (planWidth la ss) (bytes r)\<rparr>"
proof (induction ss arbitrary: rec r)
  case Nil
  then show ?case by (simp add: planWidth_def)
next
  case (Cons s ss)
  let ?n = "readWidth la (rd s)"
  let ?r' = "r\<lparr>bytes := drop ?n (bytes r)\<rparr>"
  let ?rec' = "rec(target s \<mapsto> take ?n (bytes r))"
  from Cons.prems have n: "?n \<le> length (bytes r)" and rest: "planWidth la ss \<le> length (bytes ?r')"
    and tag: "wellFormed sch (rd s) (take ?n (bytes r))" and tags: "tagsValid sch la ss (bytes ?r')"
    by (simp_all add: planWidth_def)
  have ps: "p (rd s) r = (take ?n (bytes r), ?r')"
    using cursorRead_ok [OF Cons.prems(1) n tag] by (simp only: p)
  have "err ?r' = None"
    using Cons.prems(1) by simp
  from Cons.IH [OF this rest tags]
  have ih: "snd (runSteps p ss (?rec', ?r')) = ?r'\<lparr>bytes := drop (planWidth la ss) (bytes ?r')\<rparr>" .
  have "snd (runSteps p (s # ss) (rec, r)) = snd (runSteps p ss (?rec', ?r'))"
    by (simp add: ps)
  also have "\<dots> = r\<lparr>bytes := drop (planWidth la (s # ss)) (bytes r)\<rparr>"
    unfolding ih by (simp add: planWidth_def add.commute)
  finally show ?case .
qed

lemma runSteps_advances:
  "err r = None \<Longrightarrow> planWidth la ss \<le> length (bytes r) \<Longrightarrow> tagsValid sch la ss (bytes r) \<Longrightarrow>
   snd (runSteps (cursorRead sch la) ss (rec, r))
     = r\<lparr>bytes := drop (planWidth la ss) (bytes r)\<rparr>"
  by (rule runSteps_advances_gen) simp_all

lemma runSteps_err_iff_gen:
  assumes p: "\<And>x r. p x r = cursorRead sch la x r"
  shows "err (snd (runSteps p ss (rec, r))) = None \<longleftrightarrow>
     err r = None \<and> planWidth la ss \<le> length (bytes r) \<and> tagsValid sch la ss (bytes r)"
proof (induction ss arbitrary: rec r)
  case Nil
  then show ?case by (simp add: planWidth_def)
next
  case (Cons s ss)
  let ?n = "readWidth la (rd s)"
  have w: "planWidth la (s # ss) = ?n + planWidth la ss"
    by (simp add: planWidth_def)
  show ?case
  proof (cases "err r = None \<and> ?n \<le> length (bytes r) \<and> wellFormed sch (rd s) (take ?n (bytes r))")
    case True
    let ?r' = "r\<lparr>bytes := drop ?n (bytes r)\<rparr>"
    let ?rec' = "rec(target s \<mapsto> take ?n (bytes r))"
    have "cursorRead sch la (rd s) r = (take ?n (bytes r), ?r')"
      using True by (intro cursorRead_ok) simp_all
    then have ps: "p (rd s) r = (take ?n (bytes r), ?r')"
      by (simp only: p)
    have "err (snd (runSteps p (s # ss) (rec, r))) = err (snd (runSteps p ss (?rec', ?r')))"
      by (simp add: ps)
    also have "\<dots> = None \<longleftrightarrow>
        err ?r' = None \<and> planWidth la ss \<le> length (bytes ?r') \<and> tagsValid sch la ss (bytes ?r')"
      by (rule Cons.IH)
    also have "\<dots> \<longleftrightarrow>
        err r = None \<and> planWidth la (s # ss) \<le> length (bytes r) \<and> tagsValid sch la (s # ss) (bytes r)"
      using True unfolding w by auto
    finally show ?thesis .
  next
    case False
    let ?r' = "r\<lparr>err := Some CursorFault\<rparr>"
    let ?rec' = "rec(target s \<mapsto> [])"
    have "cursorRead sch la (rd s) r = ([], ?r')"
      using False by (rule cursorRead_fail)
    then have ps: "p (rd s) r = ([], ?r')"
      by (simp only: p)
    have "err (snd (runSteps p (s # ss) (rec, r))) = err (snd (runSteps p ss (?rec', ?r')))"
      by (simp add: ps)
    also have "\<dots> = None \<longleftrightarrow>
        err ?r' = None \<and> planWidth la ss \<le> length (bytes ?r') \<and> tagsValid sch la ss (bytes ?r')"
      by (rule Cons.IH)
    also have "\<dots> \<longleftrightarrow>
        err r = None \<and> planWidth la (s # ss) \<le> length (bytes r) \<and> tagsValid sch la (s # ss) (bytes r)"
      using False unfolding w by auto
    finally show ?thesis .
  qed
qed

lemma runSteps_err_iff:
  "err (snd (runSteps (cursorRead sch la) ss (rec, r))) = None \<longleftrightarrow>
     err r = None \<and> planWidth la ss \<le> length (bytes r) \<and> tagsValid sch la ss (bytes r)"
  by (rule runSteps_err_iff_gen) simp

lemma runSteps_dom:
  "dom (fst (runSteps p ss (rec, r))) = dom rec \<union> target ` set ss"
proof (induction ss arbitrary: rec r)
  case Nil
  then show ?case by simp
next
  case (Cons s ss)
  obtain v r' where p: "p (rd s) r = (v, r')"
    by (cases "p (rd s) r")
  have "dom (fst (runSteps p (s # ss) (rec, r))) = dom (fst (runSteps p ss (rec(target s \<mapsto> v), r')))"
    by (simp add: p)
  also have "\<dots> = dom (rec(target s \<mapsto> v)) \<union> target ` set ss"
    by (rule Cons.IH)
  also have "\<dots> = dom rec \<union> target ` set (s # ss)"
    by auto
  finally show ?case .
qed

lemma runSteps_append:
  "runSteps p (xs @ ys) s = runSteps p ys (runSteps p xs s)"
  by (induction xs arbitrary: s) (auto split: prod.splits)

lemma runSteps_sticky:
  assumes "\<And>x r. err r \<noteq> None \<Longrightarrow> err (snd (p x r)) \<noteq> None"
  shows "err r \<noteq> None \<Longrightarrow> err (snd (runSteps p ss (rec, r))) \<noteq> None"
proof (induction ss arbitrary: rec r)
  case Nil
  then show ?case by simp
next
  case (Cons s ss)
  obtain v r' where p: "p (rd s) r = (v, r')"
    by (cases "p (rd s) r")
  then have "err r' \<noteq> None"
    using assms [OF Cons.prems, of "rd s"] by simp
  from Cons.IH [OF this] show ?case
    using p by simp
qed

lemma termInt_nonneg: "okTerm w \<Longrightarrow> 0 \<le> termInt la w"
  by (cases w) simp_all

lemma sum_terms_nonneg: "list_all okTerm ws \<Longrightarrow> 0 \<le> sum_list (map (termInt la) ws)"
  by (induction ws) (simp_all add: termInt_nonneg)

lemma leadingLiterals_le_sum:
  "list_all okTerm ws \<Longrightarrow> leadingLiterals ws \<le> sum_list (map (termInt la) ws)"
proof (induction ws)
  case Nil
  then show ?case by simp
next
  case (Cons w ws)
  then have "0 \<le> termInt la w" "0 \<le> sum_list (map (termInt la) ws)"
    by (simp_all add: termInt_nonneg sum_terms_nonneg)
  with Cons show ?case
    by (cases w) simp_all
qed

lemma evalWidth_small:
  assumes "fields' t \<noteq> []" and "supportedTable t" and "widthSum la t \<le> 255"
  shows "\<exists>w. evalWidth la t = Some w \<and> uint w = widthSum la t"
proof -
  have ok: "list_all okTerm (tableWidth t)"
    by (rule supported_okTerms [OF assms(2)])
  have "leadingLiterals (tableWidth t) \<le> widthSum la t"
    unfolding widthSum_def by (rule leadingLiterals_le_sum [OF ok])
  with assms(3) have "leadingLiterals (tableWidth t) \<le> 255"
    by simp
  then obtain w where w: "evalWidth la t = Some w"
    using evalWidth_total [OF assms(1,2)] by blast
  have "0 \<le> widthSum la t"
    unfolding widthSum_def by (rule sum_terms_nonneg [OF ok])
  with assms(3) have "widthSum la t mod 256 = widthSum la t"
    by simp
  with evalWidth_modulo [OF w] w show ?thesis
    by simp
qed

text \<open>
  Claim C2, as amended. For every table whose fields are within the data model and every
  layout, the decode method has exactly one step per field, in field order, each assigning
  the member of its field's name, and each step's read consumes exactly the width of the
  term the width writer gave that field. Applied to a cursor without error that holds at
  least the sum of these widths, with a valid tag in every coded column, the steps consume
  exactly that many bytes and leave no error; and whenever the steps leave no error, they
  have consumed exactly that many bytes, all of them bytes the cursor held, so that on a
  record of exactly that length no read goes past its end. When the table has a field and
  the sum is at most 255, the sum is the value of the emitted width expression. In general
  the emitted width expression, where it has a value, has the value of the sum modulo 256,
  which is not the sum when the sum is above 255.
\<close>

theorem decode_plan_follows_width_terms:
  assumes "supportedTable t"
  shows "\<exists>ss. tableDecode t = Inr ss
      \<and> length ss = length (fields' t)
      \<and> map target ss = map fieldInfo.name (fields' t)
      \<and> map (\<lambda>s. int (readWidth la (rd s))) ss = map (termInt la) (tableWidth t)
      \<and> int (planWidth la ss) = widthSum la t
      \<and> (\<forall>rec r. err r = None \<and> planWidth la ss \<le> length (bytes r)
              \<and> tagsValid sch la ss (bytes r) \<longrightarrow>
            snd (runSteps (cursorRead sch la) ss (rec, r))
              = r\<lparr>bytes := drop (planWidth la ss) (bytes r)\<rparr>)
      \<and> (\<forall>rec r. err (snd (runSteps (cursorRead sch la) ss (rec, r))) = None \<longrightarrow>
            planWidth la ss \<le> length (bytes r)
            \<and> snd (runSteps (cursorRead sch la) ss (rec, r))
                = r\<lparr>bytes := drop (planWidth la ss) (bytes r)\<rparr>)
      \<and> (fields' t \<noteq> [] \<and> widthSum la t \<le> 255 \<longrightarrow>
            (\<exists>w. evalWidth la t = Some w \<and> int (planWidth la ss) = uint w))
      \<and> (\<forall>w. evalWidth la t = Some w \<longrightarrow>
            uint w = int (planWidth la ss) mod 256
            \<and> (255 < int (planWidth la ss) \<longrightarrow> uint w \<noteq> int (planWidth la ss)))"
proof -
  obtain ss where ss: "tableDecode t = Inr ss" "length ss = length (fields' t)"
      "map target ss = map fieldInfo.name (fields' t)"
      "map (\<lambda>s. int (readWidth la (rd s))) ss = map (termInt la) (tableWidth t)"
      "int (planWidth la ss) = widthSum la t"
    using plan_of_supported [OF assms, of la] by blast
  have small: "\<exists>w. evalWidth la t = Some w \<and> int (planWidth la ss) = uint w"
    if "fields' t \<noteq> []" "widthSum la t \<le> 255"
    using evalWidth_small [OF that(1) assms that(2)] ss(5) by auto
  have wrapped: "uint w = int (planWidth la ss) mod 256
      \<and> (255 < int (planWidth la ss) \<longrightarrow> uint w \<noteq> int (planWidth la ss))"
    if "evalWidth la t = Some w" for w
    unfolding ss(5) by (rule evalWidth_modulo [OF that])
  have forth: "snd (runSteps (cursorRead sch la) ss (rec, r))
        = r\<lparr>bytes := drop (planWidth la ss) (bytes r)\<rparr>"
    if "err r = None" "planWidth la ss \<le> length (bytes r)" "tagsValid sch la ss (bytes r)"
    for rec r
    using that by (rule runSteps_advances)
  have exact: "planWidth la ss \<le> length (bytes r)
      \<and> snd (runSteps (cursorRead sch la) ss (rec, r))
          = r\<lparr>bytes := drop (planWidth la ss) (bytes r)\<rparr>"
    if h: "err (snd (runSteps (cursorRead sch la) ss (rec, r))) = None" for rec r
  proof -
    from h have "err r = None \<and> planWidth la ss \<le> length (bytes r) \<and> tagsValid sch la ss (bytes r)"
      by (simp only: runSteps_err_iff)
    then show ?thesis
      using forth [of r rec] by simp
  qed
  have c1: "\<forall>rec r. err r = None \<and> planWidth la ss \<le> length (bytes r)
              \<and> tagsValid sch la ss (bytes r) \<longrightarrow>
            snd (runSteps (cursorRead sch la) ss (rec, r))
              = r\<lparr>bytes := drop (planWidth la ss) (bytes r)\<rparr>"
    using forth by simp
  have c2: "\<forall>rec r. err (snd (runSteps (cursorRead sch la) ss (rec, r))) = None \<longrightarrow>
            planWidth la ss \<le> length (bytes r)
            \<and> snd (runSteps (cursorRead sch la) ss (rec, r))
                = r\<lparr>bytes := drop (planWidth la ss) (bytes r)\<rparr>"
    using exact by simp
  have c3: "fields' t \<noteq> [] \<and> widthSum la t \<le> 255 \<longrightarrow>
            (\<exists>w. evalWidth la t = Some w \<and> int (planWidth la ss) = uint w)"
    using small by simp
  have c4: "\<forall>w. evalWidth la t = Some w \<longrightarrow>
            uint w = int (planWidth la ss) mod 256
            \<and> (255 < int (planWidth la ss) \<longrightarrow> uint w \<noteq> int (planWidth la ss))"
    using wrapped by blast
  show ?thesis
    by (rule exI [of _ ss]) (intro conjI ss c1 c2 c3 c4)
qed

lemma exTypeDef_supported: "supportedTable exTypeDef"
  by (simp add: supportedTable_def supportedField_def knownKind_def uintSizeOk_def exTypeDef_def
      uintField_def heapField_def refField_def codedField_def)

lemma exTypeDef_plan:
  "tableDecode exTypeDef =
     Inr [Step ''Flags'' (Some ''flags.TypeAttributes'') (ReadUint ''uint32''),
          Step ''TypeName'' None ReadString,
          Step ''Extends'' None (ReadCoded ''TypeDefOrRef''),
          Step ''FieldList'' None (ReadSlice ''tableTypeDef'' ''tableField'')]"
  by (simp add: tableDecode_def fieldStep_def uintFn_def HasPrefix_def exTypeDef_def
      uintField_def heapField_def refField_def codedField_def)

theorem decode_plan_follows_width_terms_witness:
  "supportedTable exTypeDef
   \<and> fields' exTypeDef \<noteq> []
   \<and> widthSum exLayout exTypeDef = 12
   \<and> tableDecode exTypeDef =
       Inr [Step ''Flags'' (Some ''flags.TypeAttributes'') (ReadUint ''uint32''),
            Step ''TypeName'' None ReadString,
            Step ''Extends'' None (ReadCoded ''TypeDefOrRef''),
            Step ''FieldList'' None (ReadSlice ''tableTypeDef'' ''tableField'')]
   \<and> planWidth exLayout
         [Step ''Flags'' (Some ''flags.TypeAttributes'') (ReadUint ''uint32''),
          Step ''TypeName'' None ReadString,
          Step ''Extends'' None (ReadCoded ''TypeDefOrRef''),
          Step ''FieldList'' None (ReadSlice ''tableTypeDef'' ''tableField'')] = 12
   \<and> err exFullRecord = None
   \<and> length (bytes exFullRecord) = 12
   \<and> tagsValid exSchemes exLayout
         [Step ''Flags'' (Some ''flags.TypeAttributes'') (ReadUint ''uint32''),
          Step ''TypeName'' None ReadString,
          Step ''Extends'' None (ReadCoded ''TypeDefOrRef''),
          Step ''FieldList'' None (ReadSlice ''tableTypeDef'' ''tableField'')]
         (bytes exFullRecord)
   \<and> snd (runSteps (cursorRead exSchemes exLayout)
         [Step ''Flags'' (Some ''flags.TypeAttributes'') (ReadUint ''uint32''),
          Step ''TypeName'' None ReadString,
          Step ''Extends'' None (ReadCoded ''TypeDefOrRef''),
          Step ''FieldList'' None (ReadSlice ''tableTypeDef'' ''tableField'')]
         (Map.empty, exFullRecord)) = \<lparr>bytes = [], err = None\<rparr>
   \<and> evalWidth exLayout exTypeDef = Some 12"
proof -
  have f: "fields' exTypeDef \<noteq> []"
    by (simp add: exTypeDef_def)
  have s: "widthSum exLayout exTypeDef = 12"
    by (simp add: widthSum_def tableWidth_eq specWidthTerm_def exLayout_def exTypeDef_def
        uintField_def heapField_def refField_def codedField_def)
  let ?plan = "[Step ''Flags'' (Some ''flags.TypeAttributes'') (ReadUint ''uint32''),
          Step ''TypeName'' None ReadString,
          Step ''Extends'' None (ReadCoded ''TypeDefOrRef''),
          Step ''FieldList'' None (ReadSlice ''tableTypeDef'' ''tableField'')]"
  have p: "planWidth exLayout ?plan = 12"
    by (simp add: planWidth_def exLayout_def)
  have r: "err exFullRecord = None" "length (bytes exFullRecord) = 12"
    by (simp_all add: exFullRecord_def)
  have tags: "tagsValid exSchemes exLayout ?plan (bytes exFullRecord)"
    by (simp add: exSchemes_def exLayout_def exFullRecord_def)
  from decode_plan_follows_width_terms [OF exTypeDef_supported, of exLayout exSchemes]
  obtain ss where ss: "tableDecode exTypeDef = Inr ss"
    and run: "\<forall>rec r. err r = None \<and> planWidth exLayout ss \<le> length (bytes r)
            \<and> tagsValid exSchemes exLayout ss (bytes r) \<longrightarrow>
          snd (runSteps (cursorRead exSchemes exLayout) ss (rec, r))
            = r\<lparr>bytes := drop (planWidth exLayout ss) (bytes r)\<rparr>"
    and small: "fields' exTypeDef \<noteq> [] \<and> widthSum exLayout exTypeDef \<le> 255 \<longrightarrow>
          (\<exists>w. evalWidth exLayout exTypeDef = Some w \<and> int (planWidth exLayout ss) = uint w)"
    by blast
  from ss have plan: "ss = ?plan"
    by (simp add: exTypeDef_plan)
  from run r p tags have "snd (runSteps (cursorRead exSchemes exLayout) ?plan (Map.empty, exFullRecord))
      = exFullRecord\<lparr>bytes := drop 12 (bytes exFullRecord)\<rparr>"
    unfolding plan by (metis order_refl)
  then have consumed: "snd (runSteps (cursorRead exSchemes exLayout) ?plan (Map.empty, exFullRecord))
      = \<lparr>bytes = [], err = None\<rparr>"
    by (simp add: exFullRecord_def)
  from small f s p plan obtain w where w: "evalWidth exLayout exTypeDef = Some w" "uint w = 12"
    by auto
  have "w = word_of_int (uint w)"
    by simp
  with w(2) have "w = 12"
    by simp
  with w(1) show ?thesis
    using exTypeDef_supported f s exTypeDef_plan p r tags consumed by simp
qed

lemma tableSteps_strings:
  "tableSteps t (map (\<lambda>i. heapField (f i) columnTypeString) xs)
     = Inr (map (\<lambda>i. Step (f i) None ReadString) xs)"
  by (induction xs) (simp_all add: fieldStep_def heapField_def)

lemma exWide_plan: "tableDecode exWide = Inr exWidePlan"
  by (simp add: tableDecode_def exWide_def exWidePlan_def tableSteps_strings)

text \<open>
  The claim as it stands fails on a table of 64 string columns under a layout with 4-byte
  string indices: the decode steps consume 256 bytes, the width function returns 0.
\<close>

theorem decode_plan_counterexample:
  "supportedTable exWide
   \<and> tableDecode exWide = Inr exWidePlan
   \<and> planWidth exLayout exWidePlan = 256
   \<and> evalWidth exLayout exWide = Some 0"
proof -
  have "planWidth exLayout exWidePlan = 256"
    by (simp add: planWidth_def exWidePlan_def exLayout_def comp_def sum_list_replicate
        map_replicate_const)
  then show ?thesis
    using exWide_supported exWide_plan exWide_eval by simp
qed

lemma decode_fst: "fst (decode p ss rec r) = err (snd (runSteps p ss (rec, r)))"
  by (simp add: decode_def split: prod.splits)

lemma decode_snd: "snd (decode p ss rec r) = fst (runSteps p ss (rec, r))"
  by (simp add: decode_def split: prod.splits)

lemma cursorRead_sticky: "err r \<noteq> None \<Longrightarrow> err (snd (cursorRead sch la x r)) \<noteq> None"
  by (simp add: cursorRead_fail)

text \<open>
  Claim C7, as amended. The emitted method runs all its steps and returns the cursor's
  error state after the last. With the cursor of the specification it returns no error
  exactly when the cursor had none before, holds enough bytes for all steps and has a valid
  tag in every coded column; with any reader that never clears its error state, an error
  left by some step is the method's result whatever steps follow. The method assigns the
  member of every step to the record it was called on, also when it returns an error: it
  does not keep a failed decode from its caller's record.
\<close>

theorem decode_returns_error_and_writes_record:
  "(fst (decode (cursorRead sch la) ss rec r) = None \<longleftrightarrow>
      err r = None \<and> planWidth la ss \<le> length (bytes r) \<and> tagsValid sch la ss (bytes r))
   \<and> ((\<forall>x r'. err r' \<noteq> None \<longrightarrow> err (snd (p x r')) \<noteq> None) \<longrightarrow>
        (err (snd (runSteps p ss1 (rec1, r1))) \<noteq> None \<longrightarrow>
           fst (decode p (ss1 @ ss2) rec1 r1) \<noteq> None))
   \<and> dom (snd (decode p ss rec1 r1)) = dom rec1 \<union> target ` set ss"
proof (intro conjI impI)
  show "fst (decode (cursorRead sch la) ss rec r) = None \<longleftrightarrow>
      err r = None \<and> planWidth la ss \<le> length (bytes r) \<and> tagsValid sch la ss (bytes r)"
    by (simp only: decode_fst runSteps_err_iff)
next
  assume sticky: "\<forall>x r'. err r' \<noteq> None \<longrightarrow> err (snd (p x r')) \<noteq> None"
    and failed: "err (snd (runSteps p ss1 (rec1, r1))) \<noteq> None"
  obtain rec' r' where mid: "runSteps p ss1 (rec1, r1) = (rec', r')"
    by (cases "runSteps p ss1 (rec1, r1)")
  with failed have "err r' \<noteq> None"
    by simp
  then have "err (snd (runSteps p ss2 (rec', r'))) \<noteq> None"
    using sticky by (intro runSteps_sticky) blast
  then show "fst (decode p (ss1 @ ss2) rec1 r1) \<noteq> None"
    by (simp add: decode_fst runSteps_append mid)
next
  show "dom (snd (decode p ss rec1 r1)) = dom rec1 \<union> target ` set ss"
    by (simp only: decode_snd runSteps_dom)
qed

lemma exPair_plan:
  "tableDecode exPair =
     Inr [Step ''First'' None (ReadUint ''uint16''), Step ''Second'' None (ReadUint ''uint16'')]"
  by (simp add: tableDecode_def fieldStep_def uintFn_def HasPrefix_def exPair_def uintField_def)

lemma exPair_short:
  "decode (cursorRead exSchemes exLayout)
      [Step ''First'' None (ReadUint ''uint16''), Step ''Second'' None (ReadUint ''uint16'')]
      Map.empty exShortRecord
   = (Some CursorFault, [''First'' \<mapsto> [1, 2], ''Second'' \<mapsto> []])"
  by (simp add: decode_def cursorRead_def Let_def exShortRecord_def)

theorem decode_returns_error_and_writes_record_witness:
  "planWidth exLayout
      [Step ''First'' None (ReadUint ''uint16''), Step ''Second'' None (ReadUint ''uint16'')] = 4
   \<and> length (bytes exShortRecord) = 3
   \<and> err (snd (runSteps (cursorRead exSchemes exLayout)
          [Step ''First'' None (ReadUint ''uint16''), Step ''Second'' None (ReadUint ''uint16'')]
          (Map.empty, exShortRecord))) \<noteq> None
   \<and> fst (decode (cursorRead exSchemes exLayout)
        ([Step ''First'' None (ReadUint ''uint16''), Step ''Second'' None (ReadUint ''uint16'')]
          @ [Step ''Third'' None ReadString])
        Map.empty exShortRecord) \<noteq> None
   \<and> dom (snd (decode (cursorRead exSchemes exLayout)
        [Step ''First'' None (ReadUint ''uint16''), Step ''Second'' None (ReadUint ''uint16'')]
        Map.empty exShortRecord)) = {''First'', ''Second''}
   \<and> planWidth exLayout [Step ''Extends'' None (ReadCoded ''TypeDefOrRef'')] = 2
   \<and> length (bytes exBadTagRecord) = 2
   \<and> \<not> tagsValid exSchemes exLayout [Step ''Extends'' None (ReadCoded ''TypeDefOrRef'')]
         (bytes exBadTagRecord)
   \<and> fst (decode (cursorRead exSchemes exLayout)
        [Step ''Extends'' None (ReadCoded ''TypeDefOrRef'')] Map.empty exBadTagRecord)
       = Some CursorFault
   \<and> fst (decode (cursorRead exSchemes exLayout)
        [Step ''Extends'' None (ReadCoded ''TypeDefOrRef'')] Map.empty exFullRecord) = None"
proof -
  let ?plan = "[Step ''First'' None (ReadUint ''uint16''), Step ''Second'' None (ReadUint ''uint16'')]"
  let ?coded = "[Step ''Extends'' None (ReadCoded ''TypeDefOrRef'')]"
  have w: "planWidth exLayout ?plan = 4"
    by (simp add: planWidth_def)
  have l: "length (bytes exShortRecord) = 3"
    by (simp add: exShortRecord_def)
  have st: "\<forall>x r'. err r' \<noteq> None \<longrightarrow> err (snd (cursorRead exSchemes exLayout x r')) \<noteq> None"
    using cursorRead_sticky by blast
  have e: "err (snd (runSteps (cursorRead exSchemes exLayout) ?plan (Map.empty, exShortRecord))) \<noteq> None"
    by (simp only: runSteps_err_iff w l) simp
  have sticky_part: "(\<forall>x r'. err r' \<noteq> None \<longrightarrow> err (snd (cursorRead exSchemes exLayout x r')) \<noteq> None) \<longrightarrow>
      err (snd (runSteps (cursorRead exSchemes exLayout) ?plan (Map.empty, exShortRecord))) \<noteq> None \<longrightarrow>
      fst (decode (cursorRead exSchemes exLayout) (?plan @ [Step ''Third'' None ReadString])
             Map.empty exShortRecord) \<noteq> None"
    by (rule decode_returns_error_and_writes_record
      [of exSchemes exLayout ?plan Map.empty exShortRecord "cursorRead exSchemes exLayout" ?plan
          Map.empty exShortRecord "[Step ''Third'' None ReadString]",
        THEN conjunct2, THEN conjunct1])
  have long: "fst (decode (cursorRead exSchemes exLayout)
        (?plan @ [Step ''Third'' None ReadString]) Map.empty exShortRecord) \<noteq> None"
    using sticky_part st e by (rule mp [THEN mp])
  have "dom (snd (decode (cursorRead exSchemes exLayout) ?plan Map.empty exShortRecord))
      = dom (Map.empty :: string \<rightharpoonup> 8 word list) \<union> target ` set ?plan"
    by (rule decode_returns_error_and_writes_record
      [of exSchemes exLayout ?plan Map.empty exShortRecord "cursorRead exSchemes exLayout" ?plan
          Map.empty exShortRecord "[]",
        THEN conjunct2, THEN conjunct2])
  then have written: "dom (snd (decode (cursorRead exSchemes exLayout) ?plan Map.empty exShortRecord))
      = {''First'', ''Second''}"
    by simp
  have cw: "planWidth exLayout ?coded = 2"
    by (simp add: planWidth_def exLayout_def)
  have bl: "length (bytes exBadTagRecord) = 2" "err exBadTagRecord = None"
    by (simp_all add: exBadTagRecord_def)
  have bad: "\<not> tagsValid exSchemes exLayout ?coded (bytes exBadTagRecord)"
    by (simp add: exSchemes_def exLayout_def exBadTagRecord_def)
  have good: "tagsValid exSchemes exLayout ?coded (bytes exFullRecord)"
    "err exFullRecord = None" "length (bytes exFullRecord) = 12"
    by (simp_all add: exSchemes_def exLayout_def exFullRecord_def)
  have "fst (decode (cursorRead exSchemes exLayout) ?coded Map.empty exBadTagRecord) \<noteq> None"
    using decode_returns_error_and_writes_record
      [of exSchemes exLayout ?coded Map.empty exBadTagRecord, THEN conjunct1] cw bl bad
    by simp
  then obtain e' where "fst (decode (cursorRead exSchemes exLayout) ?coded Map.empty exBadTagRecord)
      = Some e'"
    by blast
  then have malformed: "fst (decode (cursorRead exSchemes exLayout) ?coded Map.empty exBadTagRecord)
      = Some CursorFault"
    by (cases e') simp
  have wellformed: "fst (decode (cursorRead exSchemes exLayout) ?coded Map.empty exFullRecord) = None"
    using decode_returns_error_and_writes_record
      [of exSchemes exLayout ?coded Map.empty exFullRecord, THEN conjunct1] cw good
    by simp
  show ?thesis
    by (intro conjI w l e long written cw bl(1) bad malformed wellformed)
qed

text \<open>
  The claim as it stands fails on a record of three bytes decoded as two 16-bit integers:
  the method returns the cursor fault, and the caller's record holds the first integer.
\<close>

theorem decode_partial_record_counterexample:
  "tableDecode exPair =
     Inr [Step ''First'' None (ReadUint ''uint16''), Step ''Second'' None (ReadUint ''uint16'')]
   \<and> decode (cursorRead exSchemes exLayout)
        [Step ''First'' None (ReadUint ''uint16''), Step ''Second'' None (ReadUint ''uint16'')]
        Map.empty exShortRecord
      = (Some CursorFault, [''First'' \<mapsto> [1, 2], ''Second'' \<mapsto> []])"
  using exPair_plan exPair_short by simp

end
